theory Spec2Isabelle
  imports Complex_Main "HOL-Library.Word"
begin

section \<open>Exceptions and results\<close>

text \<open>
  The service is one Python module, \<^verbatim>\<open>modal/sherlock_mirror.py\<close>. Every function
  that can raise is modelled with a result of type \<open>error + 'a\<close>: \<open>Inl\<close> carries the
  exception, \<open>Inr\<close> the value. \<open>HTTPException s\<close> is what \<^verbatim>\<open>_error_response\<close> raises
  with status \<open>s\<close>.
\<close>

datatype error =
    ValueError
  | IndexError
  | TypeError
  | StructError
  | RuntimeError
  | HTTPException nat

definition ebind :: "error + 'a \<Rightarrow> ('a \<Rightarrow> error + 'b) \<Rightarrow> error + 'b" where
  "ebind m f = (case m of Inl e \<Rightarrow> Inl e | Inr x \<Rightarrow> f x)"

section \<open>The prediction adapter: alias lookup\<close>

text \<open>
  \<^verbatim>\<open>predictions\<close> is either a \<^verbatim>\<open>dict\<close> (probed with \<^verbatim>\<open>k in predictions\<close>) or any
  other object (probed with \<^verbatim>\<open>hasattr\<close>). Both are modelled as a finite table from
  names to values; the constructor records which probe the source uses. A stored value
  may be Python's \<^verbatim>\<open>None\<close>, so values are options: \<open>Some None\<close> is a key that is
  present and holds \<^verbatim>\<open>None\<close>.
\<close>

datatype 'v prediction =
    PDict "string \<rightharpoonup> 'v option"
  | PObj "string \<rightharpoonup> 'v option"

fun has_key :: "'v prediction \<Rightarrow> string \<Rightarrow> bool" where
  "has_key (PDict d) k = (d k \<noteq> None)"
| "has_key (PObj a) k = (a k \<noteq> None)"

fun get_value :: "'v prediction \<Rightarrow> string \<Rightarrow> 'v option" where
  "get_value (PDict d) k = (case d k of None \<Rightarrow> None | Some v \<Rightarrow> v)"
| "get_value (PObj a) k = (case a k of None \<Rightarrow> None | Some v \<Rightarrow> v)"

text \<open>
  \<^verbatim>\<open>_extract_tensor(predictions, candidate_keys)\<close>: the two loops of the source, one
  per kind of result, each returning at the first candidate that is present and
  \<^verbatim>\<open>None\<close> when the list is exhausted.
\<close>

fun dict_loop :: "(string \<rightharpoonup> 'v option) \<Rightarrow> string list \<Rightarrow> 'v option" where
  "dict_loop d [] = None"
| "dict_loop d (k # ks) = (case d k of Some v \<Rightarrow> v | None \<Rightarrow> dict_loop d ks)"

fun attr_loop :: "(string \<rightharpoonup> 'v option) \<Rightarrow> string list \<Rightarrow> 'v option" where
  "attr_loop a [] = None"
| "attr_loop a (k # ks) = (case a k of Some v \<Rightarrow> v | None \<Rightarrow> attr_loop a ks)"

fun extract_tensor :: "'v prediction \<Rightarrow> string list \<Rightarrow> 'v option" where
  "extract_tensor (PDict d) candidate_keys = dict_loop d candidate_keys"
| "extract_tensor (PObj a) candidate_keys = attr_loop a candidate_keys"

definition pts3d_keys :: "string list" where
  "pts3d_keys = [''pts3d'', ''means3D'', ''means'', ''xyz'']"

definition conf_keys :: "string list" where
  "conf_keys = [''conf'', ''confidence'', ''opacity'', ''opacities'']"

definition scales_keys :: "string list" where
  "scales_keys = [''scales'', ''scaling'', ''log_scales'']"

definition quats_keys :: "string list" where
  "quats_keys = [''quats'', ''rotations'', ''rotation'', ''rots'']"

definition sh_keys :: "string list" where
  "sh_keys = [''sh'', ''shs'', ''features_dc'', ''sh_coeffs'', ''colors_precomp'']"

section \<open>Alias resolution is a fixed priority list\<close>

lemma dict_loop_find:
  "dict_loop d ks = (case List.find (\<lambda>k. d k \<noteq> None) ks of
                      None \<Rightarrow> None | Some k \<Rightarrow> (case d k of None \<Rightarrow> None | Some v \<Rightarrow> v))"
  by (induction ks) (auto split: option.splits)

lemma attr_loop_find:
  "attr_loop a ks = (case List.find (\<lambda>k. a k \<noteq> None) ks of
                      None \<Rightarrow> None | Some k \<Rightarrow> (case a k of None \<Rightarrow> None | Some v \<Rightarrow> v))"
  by (induction ks) (auto split: option.splits)

lemma extract_tensor_find:
  "extract_tensor p ks =
     (case List.find (has_key p) ks of None \<Rightarrow> None | Some k \<Rightarrow> get_value p k)"
proof (cases p)
  case (PDict d)
  have "has_key (PDict d) = (\<lambda>k. d k \<noteq> None)" by (rule ext) simp
  then show ?thesis using PDict by (simp add: dict_loop_find split: option.splits)
next
  case (PObj a)
  have "has_key (PObj a) = (\<lambda>k. a k \<noteq> None)" by (rule ext) simp
  then show ?thesis using PObj by (simp add: attr_loop_find split: option.splits)
qed

lemma extract_tensor_first:
  assumes "has_key p k" and "list_all (\<lambda>j. \<not> has_key p j) before"
  shows "extract_tensor p (before @ k # after) = get_value p k"
proof -
  have "List.find (has_key p) (before @ k # after) = Some k"
    using assms by (induction before) auto
  then show ?thesis by (simp add: extract_tensor_find)
qed

text \<open>
  C6. For every prediction result and every alias list, the adapter returns the value
  stored under the first alias of the list that is present (dict membership for a
  dict, attribute presence otherwise), and nothing when no alias is present. So the
  result is the same whatever is stored under later aliases: when an alias \<open>k\<close> is
  present and none of the aliases before it is, the result is the value of \<open>k\<close> for
  every list of aliases after it. In particular a result that has both \<^verbatim>\<open>pts3d\<close> and
  \<^verbatim>\<open>means3D\<close> resolves the positions to the value of \<^verbatim>\<open>pts3d\<close>.
\<close>

theorem alias_resolution_first_present:
  "extract_tensor p ks =
     (case List.find (has_key p) ks of None \<Rightarrow> None | Some k \<Rightarrow> get_value p k)
   \<and> (has_key p k \<and> list_all (\<lambda>j. \<not> has_key p j) before
        \<longrightarrow> extract_tensor p (before @ k # after) = get_value p k)
   \<and> (has_key p ''pts3d'' \<and> has_key p ''means3D''
        \<longrightarrow> extract_tensor p pts3d_keys = get_value p ''pts3d'')"
proof (intro conjI impI)
  show "extract_tensor p ks =
     (case List.find (has_key p) ks of None \<Rightarrow> None | Some k \<Rightarrow> get_value p k)"
    by (rule extract_tensor_find)
next
  assume "has_key p k \<and> list_all (\<lambda>j. \<not> has_key p j) before"
  then show "extract_tensor p (before @ k # after) = get_value p k"
    by (simp add: extract_tensor_first)
next
  assume "has_key p ''pts3d'' \<and> has_key p ''means3D''"
  then have "has_key p ''pts3d''" by simp
  then show "extract_tensor p pts3d_keys = get_value p ''pts3d''"
    using extract_tensor_first [of p "''pts3d''" "[]" "[''means3D'', ''means'', ''xyz'']"]
    by (simp add: pts3d_keys_def)
qed

theorem alias_resolution_first_present_witness:
  "has_key (PDict [''pts3d'' \<mapsto> Some (1::nat), ''means3D'' \<mapsto> Some 2]) ''pts3d''
   \<and> has_key (PDict [''pts3d'' \<mapsto> Some (1::nat), ''means3D'' \<mapsto> Some 2]) ''means3D''
   \<and> extract_tensor (PDict [''pts3d'' \<mapsto> Some (1::nat), ''means3D'' \<mapsto> Some 2]) pts3d_keys
       = Some 1
   \<and> has_key (PObj [''means'' \<mapsto> Some (7::nat), ''xyz'' \<mapsto> Some 8]) ''means''
   \<and> list_all (\<lambda>j. \<not> has_key (PObj [''means'' \<mapsto> Some (7::nat), ''xyz'' \<mapsto> Some 8]) j)
        [''pts3d'', ''means3D'']
   \<and> extract_tensor (PObj [''means'' \<mapsto> Some (7::nat), ''xyz'' \<mapsto> Some 8])
        ([''pts3d'', ''means3D''] @ ''means'' # [''xyz'']) = Some 7"
  using alias_resolution_first_present
    [of "PDict [''pts3d'' \<mapsto> Some (1::nat), ''means3D'' \<mapsto> Some 2]" "[]" "''pts3d''" "[]" "[]"]
    alias_resolution_first_present
    [of "PObj [''means'' \<mapsto> Some (7::nat), ''xyz'' \<mapsto> Some 8]" "[]" "''means''"
        "[''pts3d'', ''means3D'']" "[''xyz'']"]
  by simp

section \<open>The frame sampler\<close>

text \<open>
  The video branch of \<^verbatim>\<open>reconstruct\<close>. OpenCV is a library: a \<^verbatim>\<open>VideoCapture\<close> is
  modelled by what the source reads from it, namely whether it opened, the reported
  frame rate (a double, here a real; \<open>0\<close> when the container gives none) and the frames
  that successive \<^verbatim>\<open>cap.read()\<close> calls return before the first failed read.
  \<^verbatim>\<open>int(x)\<close> on a float truncates toward zero (it raises on a NaN or an infinity,
  which the reals do not have).
\<close>

definition py_int :: "real \<Rightarrow> int" where
  "py_int x = (if 0 \<le> x then \<lfloor>x\<rfloor> else \<lceil>x\<rceil>)"

text \<open>\<^verbatim>\<open>src_fps = cap.get(cv2.CAP_PROP_FPS) or 30.0\<close>\<close>

definition fps_or_default :: "real \<Rightarrow> real" where
  "fps_or_default f = (if f = 0 then 30.0 else f)"

text \<open>\<^verbatim>\<open>frame_interval = max(1, int(src_fps / 1))\<close>\<close>

definition frame_interval :: "real \<Rightarrow> int" where
  "frame_interval src_fps = max 1 (py_int (src_fps / 1))"

definition max_frames :: nat where
  "max_frames = 100"

text \<open>
  The \<^verbatim>\<open>while True\<close> loop: one step per decoded frame, ending at the first failed
  read, that is when the list of frames is exhausted. \<open>conv\<close> is the per-frame
  conversion (BGR to RGB, then the Lanczos resize to the target size).
\<close>

fun read_loop ::
  "('f \<Rightarrow> 'img) \<Rightarrow> int \<Rightarrow> 'f list \<Rightarrow> nat \<Rightarrow> nat \<Rightarrow> 'img list \<Rightarrow> 'img list" where
  "read_loop conv k [] frame_idx extracted pil_images = pil_images"
| "read_loop conv k (frame # rest) frame_idx extracted pil_images =
     (if int frame_idx mod k = 0 \<and> extracted < max_frames
      then read_loop conv k rest (frame_idx + 1) (extracted + 1) (pil_images @ [conv frame])
      else read_loop conv k rest (frame_idx + 1) extracted pil_images)"

definition extract_frames :: "('f \<Rightarrow> 'img) \<Rightarrow> real \<Rightarrow> 'f list \<Rightarrow> 'img list" where
  "extract_frames conv raw_fps frames =
     read_loop conv (frame_interval (fps_or_default raw_fps)) frames 0 0 []"

text \<open>
  The stride as the specification words it, for comparison with \<open>frame_interval\<close>:
  \<open>max(1, round(source_fps / target_fps))\<close>.
\<close>

definition spec_stride :: "real \<Rightarrow> real \<Rightarrow> int" where
  "spec_stride source_fps target_fps = max 1 (round (source_fps / target_fps))"

lemma read_loop_eq:
  "extracted \<le> max_frames \<Longrightarrow>
   read_loop conv k frames frame_idx extracted acc =
     acc @ map (conv \<circ> snd)
       (take (max_frames - extracted)
         (filter (\<lambda>(i, f). int i mod k = 0) (List.enumerate frame_idx frames)))"
proof (induction frames arbitrary: frame_idx extracted acc)
  case Nil
  then show ?case by simp
next
  case (Cons f fs)
  show ?case
  proof (cases "int frame_idx mod k = 0")
    case hit: True
    show ?thesis
    proof (cases "extracted < max_frames")
      case True
      then have "max_frames - extracted = Suc (max_frames - (extracted + 1))" by simp
      then show ?thesis using hit True Cons.IH [of "extracted + 1"] by simp
    next
      case False
      then have "extracted = max_frames" using Cons.prems by simp
      then show ?thesis using hit Cons.IH [of extracted] by simp
    qed
  next
    case False
    then show ?thesis using Cons by simp
  qed
qed

text \<open>
  C4 (counterexample). At the NTSC rate 29.97 frames per second the source's stride is
  \<open>int(29.97) = 29\<close>, while the claimed \<open>max(1, round(29.97 / 1))\<close> is 30; on a
  31-frame video the sampler emits frames 0 and 29, not frames 0 and 30.
\<close>

theorem stride_truncates_counterexample:
  "frame_interval (fps_or_default (2997 / 100)) = 29
   \<and> spec_stride (2997 / 100) 1 = 30
   \<and> extract_frames (\<lambda>x. x) (2997 / 100) [0..<31::nat] = [0, 29]"
  by (simp add: frame_interval_def fps_or_default_def py_int_def spec_stride_def round_def
      extract_frames_def max_frames_def upt_conv_Cons)

text \<open>
  C4 (amended). For every video, with the source rate replaced by 30 when it is
  reported as 0, the sampler uses the stride \<open>max(1, int(source_fps))\<close> (truncation,
  not rounding), walks the frames in decode order and emits exactly the frames whose
  index is a multiple of the stride, converted, in their original order, cut off after
  the first 100 of them.
\<close>

theorem frame_sampler_stride_and_cap:
  "extract_frames conv raw_fps frames =
     map (conv \<circ> snd)
       (take 100
         (filter (\<lambda>(i, f). int i mod max 1 (py_int (if raw_fps = 0 then 30 else raw_fps)) = 0)
           (List.enumerate 0 frames)))"
  by (simp add: extract_frames_def read_loop_eq frame_interval_def fps_or_default_def
      max_frames_def)

section \<open>The temporary video file\<close>

text \<open>
  The file system is a table from paths to contents. \<^verbatim>\<open>base64.b64decode\<close> and
  \<^verbatim>\<open>cv2.VideoCapture\<close> are library calls and are parameters: the first may raise, the
  second yields the capture for the bytes written to the file. Writing the file is taken
  to succeed, since C5 is about requests for which the file exists. \<^verbatim>\<open>os.remove\<close>
  deletes the path (an \<^verbatim>\<open>OSError\<close> is swallowed by the source).
\<close>

type_synonym filesystem = "string \<rightharpoonup> string"

record 'f video_capture =
  isOpened :: bool
  cap_fps :: real
  cap_frames :: "'f list"

definition video_path :: "string \<Rightarrow> string" where
  "video_path case_id = ''/tmp/'' @ case_id @ ''_input.mp4''"

text \<open>The body of the \<^verbatim>\<open>try\<close> block of the video branch, up to its last statement.\<close>

definition video_try ::
  "(string \<Rightarrow> error + string) \<Rightarrow> (string \<Rightarrow> 'f video_capture) \<Rightarrow> ('f \<Rightarrow> 'img) \<Rightarrow>
   string \<Rightarrow> string \<Rightarrow> filesystem \<Rightarrow> (error + 'img list) \<times> filesystem" where
  "video_try b64decode VideoCapture conv case_id video_b64 fs =
     (case b64decode video_b64 of
        Inl e \<Rightarrow> (Inl e, fs)
      | Inr video_bytes \<Rightarrow>
          let fs1 = fs(video_path case_id \<mapsto> video_bytes);
              cap = VideoCapture video_bytes
          in if \<not> isOpened cap then (Inl RuntimeError, fs1)
             else
               let pil_images = extract_frames conv (cap_fps cap) (cap_frames cap)
               in if length pil_images = 0 then (Inl RuntimeError, fs1)
                  else (Inr pil_images, fs1(video_path case_id := None)))"

text \<open>
  The \<^verbatim>\<open>except Exception\<close> handler: it prints the traceback and raises the HTTP error
  with status 400. It does not touch the file system.
\<close>

definition video_branch ::
  "(string \<Rightarrow> error + string) \<Rightarrow> (string \<Rightarrow> 'f video_capture) \<Rightarrow> ('f \<Rightarrow> 'img) \<Rightarrow>
   string \<Rightarrow> string \<Rightarrow> filesystem \<Rightarrow> (error + 'img list) \<times> filesystem" where
  "video_branch b64decode VideoCapture conv case_id video_b64 fs =
     (case video_try b64decode VideoCapture conv case_id video_b64 fs of
        (Inl e, fs') \<Rightarrow> (Inl (HTTPException 400), fs')
      | (Inr imgs, fs') \<Rightarrow> (Inr imgs, fs'))"

lemma video_branch_success_removes:
  "video_branch b64decode VideoCapture conv case_id video_b64 fs = (Inr imgs, fs')
   \<Longrightarrow> fs' (video_path case_id) = None"
  by (auto simp: video_branch_def video_try_def Let_def split: sum.splits if_splits prod.splits)

lemma video_branch_unopened_keeps:
  "b64decode video_b64 = Inr video_bytes \<Longrightarrow> \<not> isOpened (VideoCapture video_bytes)
   \<Longrightarrow> video_branch b64decode VideoCapture conv case_id video_b64 fs
       = (Inl (HTTPException 400), fs(video_path case_id \<mapsto> video_bytes))"
  by (simp add: video_branch_def video_try_def)

lemma video_branch_no_frames_keeps:
  "b64decode video_b64 = Inr video_bytes \<Longrightarrow> isOpened (VideoCapture video_bytes)
   \<Longrightarrow> cap_frames (VideoCapture video_bytes) = []
   \<Longrightarrow> video_branch b64decode VideoCapture conv case_id video_b64 fs
       = (Inl (HTTPException 400), fs(video_path case_id \<mapsto> video_bytes))"
  by (simp add: video_branch_def video_try_def extract_frames_def)

text \<open>
  C5 (the code at the failing inputs). A request with case id \<^verbatim>\<open>c1\<close> whose video bytes
  OpenCV cannot open ends with status 400 and leaves \<^verbatim>\<open>/tmp/c1_input.mp4\<close> behind with
  the bytes written to it; so does a video that opens and decodes to no frame. Only the
  successful path removes the file.
\<close>

theorem temp_video_left_behind_on_failure:
  "video_branch (\<lambda>s. Inr ''not a video'')
      (\<lambda>b. \<lparr>isOpened = False, cap_fps = 0, cap_frames = ([]::nat list)\<rparr>)
      (\<lambda>x. x) ''c1'' ''bm90IGEgdmlkZW8='' Map.empty
     = (Inl (HTTPException 400), [''/tmp/c1_input.mp4'' \<mapsto> ''not a video''])
   \<and> video_branch (\<lambda>s. Inr ''not a video'')
      (\<lambda>b. \<lparr>isOpened = True, cap_fps = 25, cap_frames = ([]::nat list)\<rparr>)
      (\<lambda>x. x) ''c1'' ''bm90IGEgdmlkZW8='' Map.empty
     = (Inl (HTTPException 400), [''/tmp/c1_input.mp4'' \<mapsto> ''not a video''])
   \<and> video_branch (\<lambda>s. Inr ''not a video'')
      (\<lambda>b. \<lparr>isOpened = True, cap_fps = 25, cap_frames = [7::nat]\<rparr>)
      (\<lambda>x. x) ''c1'' ''bm90IGEgdmlkZW8='' Map.empty
     = (Inr [7], Map.empty)"
  by (simp add: video_branch_def video_try_def video_path_def extract_frames_def
      frame_interval_def fps_or_default_def py_int_def max_frames_def)

section \<open>Arrays\<close>

text \<open>
  A numpy array is its shape and its elements in row-major order; \<open>wf_ndarray\<close> is the
  invariant numpy maintains between the two. Elements are kept abstract where the code
  only moves them (the encoder) and are reals where it computes with them (the adapter
  and the colours): float32 rounding is not modelled.

  \<^verbatim>\<open>reshape\<close> checks sizes and keeps the elements. With one dimension given as \<^verbatim>\<open>-1\<close>,
  numpy infers it as the size divided by the product of the other dimensions and raises
  \<^verbatim>\<open>ValueError\<close> when that product is 0 or does not divide the size; so
  \<^verbatim>\<open>a.reshape(0, -1)\<close> raises for every \<^verbatim>\<open>a\<close>.
\<close>

datatype 'a ndarray = NDArray (shape: "nat list") (data: "'a list")

definition ndim :: "'a ndarray \<Rightarrow> nat" where
  "ndim a = length (shape a)"

definition asize :: "'a ndarray \<Rightarrow> nat" where
  "asize a = prod_list (shape a)"

definition wf_ndarray :: "'a ndarray \<Rightarrow> bool" where
  "wf_ndarray a = (length (data a) = asize a)"

text \<open>\<^verbatim>\<open>a.shape[0]\<close> and \<^verbatim>\<open>a.shape[1]\<close>, read only where the rank is known to allow it.\<close>

definition nrows :: "'a ndarray \<Rightarrow> nat" where
  "nrows a = shape a ! 0"

definition ncols :: "'a ndarray \<Rightarrow> nat" where
  "ncols a = shape a ! 1"

text \<open>\<^verbatim>\<open>a.reshape(n, -1)\<close>\<close>

definition reshape_rows_auto :: "nat \<Rightarrow> 'a ndarray \<Rightarrow> error + 'a ndarray" where
  "reshape_rows_auto n a =
     (if n = 0 then Inl ValueError
      else if asize a mod n = 0 then Inr (NDArray [n, asize a div n] (data a))
      else Inl ValueError)"

text \<open>\<^verbatim>\<open>a.reshape(-1, k)\<close>\<close>

definition reshape_auto_cols :: "nat \<Rightarrow> 'a ndarray \<Rightarrow> error + 'a ndarray" where
  "reshape_auto_cols k a =
     (if k = 0 then Inl ValueError
      else if asize a mod k = 0 then Inr (NDArray [asize a div k, k] (data a))
      else Inl ValueError)"

text \<open>\<^verbatim>\<open>a.reshape(n, k)\<close> and \<^verbatim>\<open>a.reshape(n, c, k)\<close>\<close>

definition reshape2 :: "nat \<Rightarrow> nat \<Rightarrow> 'a ndarray \<Rightarrow> error + 'a ndarray" where
  "reshape2 n k a =
     (if asize a = n * k then Inr (NDArray [n, k] (data a)) else Inl ValueError)"

definition reshape3 :: "nat \<Rightarrow> nat \<Rightarrow> nat \<Rightarrow> 'a ndarray \<Rightarrow> error + 'a ndarray" where
  "reshape3 n c k a =
     (if asize a = n * c * k then Inr (NDArray [n, c, k] (data a)) else Inl ValueError)"

text \<open>Row \<open>i\<close> of a two-dimensional array, and \<^verbatim>\<open>a.tolist()\<close>.\<close>

definition row :: "'a ndarray \<Rightarrow> nat \<Rightarrow> 'a list" where
  "row a i = take (ncols a) (drop (i * ncols a) (data a))"

definition tolist :: "'a ndarray \<Rightarrow> 'a list list" where
  "tolist a = map (row a) [0..<nrows a]"

text \<open>The two-dimensional array with \<open>n\<close> rows of width \<open>w\<close> whose row \<open>i\<close> is \<open>f i\<close>.\<close>

definition from_rows :: "nat \<Rightarrow> nat \<Rightarrow> (nat \<Rightarrow> 'a list) \<Rightarrow> 'a ndarray" where
  "from_rows n w f = NDArray [n, w] (concat (map f [0..<n]))"

text \<open>\<^verbatim>\<open>a[:, :m]\<close> and \<^verbatim>\<open>np.tile(a, (1, 3))\<close> on a two-dimensional array.\<close>

definition take_cols :: "nat \<Rightarrow> 'a ndarray \<Rightarrow> 'a ndarray" where
  "take_cols m a = from_rows (nrows a) (min m (ncols a)) (\<lambda>i. take m (row a i))"

definition tile3 :: "'a ndarray \<Rightarrow> 'a ndarray" where
  "tile3 a = from_rows (nrows a) (3 * ncols a) (\<lambda>i. row a i @ row a i @ row a i)"

text \<open>
  \<^verbatim>\<open>np.full((n, k), v)\<close> (also \<^verbatim>\<open>np.zeros\<close> and \<^verbatim>\<open>np.ones(...) * v\<close>), and
  \<^verbatim>\<open>np.tile(r, (n, 1))\<close> for a one-dimensional \<^verbatim>\<open>r\<close>.
\<close>

definition full :: "nat \<Rightarrow> nat \<Rightarrow> 'a \<Rightarrow> 'a ndarray" where
  "full n k v = NDArray [n, k] (replicate (n * k) v)"

definition tile_rows :: "'a list \<Rightarrow> nat \<Rightarrow> 'a ndarray" where
  "tile_rows r n = from_rows n (length r) (\<lambda>i. r)"

subsection \<open>Rows of arrays\<close>

lemma ebind_Inr [simp]: "ebind (Inr x) f = f x"
  by (simp add: ebind_def)

lemma ebind_Inl [simp]: "ebind (Inl e) f = Inl e"
  by (simp add: ebind_def)

lemma nth_chunk:
  "\<forall>x\<in>set xss. length x = w \<Longrightarrow> i < length xss \<Longrightarrow>
   take w (drop (i * w) (concat xss)) = xss ! i"
proof (induction xss arbitrary: i)
  case Nil
  then show ?case by simp
next
  case (Cons x xss)
  show ?case
  proof (cases i)
    case 0
    then show ?thesis using Cons.prems by simp
  next
    case (Suc j)
    then have "drop (i * w) (concat (x # xss)) = drop (j * w) (concat xss)"
      using Cons.prems by simp
    then show ?thesis using Cons Suc by simp
  qed
qed

lemma row_2d [simp]: "row (NDArray [n, w] xs) i = take w (drop (i * w) xs)"
  by (simp add: row_def ncols_def)

lemma row_from_rows:
  assumes "\<And>j. j < n \<Longrightarrow> length (f j) = w" and "i < n"
  shows "row (from_rows n w f) i = f i"
  using nth_chunk [of "map f [0..<n]" w i] assms by (simp add: from_rows_def)

lemma chunk_bound: "i < n \<Longrightarrow> i * w + w \<le> n * (w::nat)"
proof -
  assume "i < n"
  then have "Suc i * w \<le> n * w" by (intro mult_le_mono1) simp
  then show ?thesis by simp
qed

lemma length_chunk:
  "i < n \<Longrightarrow> length xs = n * w \<Longrightarrow> length (take w (drop (i * w) xs)) = w"
  using chunk_bound [of i n w] by simp

lemma length_row:
  "shape a = [n, w] \<Longrightarrow> length (data a) = n * w \<Longrightarrow> i < n \<Longrightarrow> length (row a i) = w"
proof -
  assume sh: "shape a = [n, w]" and len: "length (data a) = n * w" and i: "i < n"
  have a: "a = NDArray [n, w] (data a)" using sh by (cases a) simp
  show ?thesis using length_chunk [OF i len] a by (metis row_2d)
qed

lemma row_full: "i < n \<Longrightarrow> row (full n w v) i = replicate w v"
proof -
  assume "i < n"
  then have "w \<le> n * w - i * w" using chunk_bound [of i n w] by simp
  then show ?thesis by (simp add: full_def min_absorb1)
qed

lemma row_tile_rows: "i < n \<Longrightarrow> row (tile_rows r n) i = r"
  unfolding tile_rows_def by (rule row_from_rows) simp_all

lemma length_concat_rows:
  "(\<And>j. j < n \<Longrightarrow> length (f j) = w) \<Longrightarrow> length (concat (map f [0..<n])) = n * w"
  by (induction n) simp_all

lemma map_const_upt: "map (\<lambda>i. r) [0..<n] = replicate n r"
  by (simp add: map_replicate_const)

lemma tile3_shape:
  "shape sh = [n, w] \<Longrightarrow> shape (tile3 sh) = [n, 3 * w]"
  by (simp add: tile3_def from_rows_def nrows_def ncols_def)

lemma tile3_length:
  assumes "shape sh = [n, w]" "length (data sh) = n * w"
  shows "length (data (tile3 sh)) = n * (3 * w)"
proof -
  have "length (concat (map (\<lambda>i. row sh i @ row sh i @ row sh i) [0..<n])) = n * (3 * w)"
    by (rule length_concat_rows) (simp add: length_row [OF assms])
  then show ?thesis using assms(1) by (simp add: tile3_def from_rows_def nrows_def ncols_def)
qed

lemma tile3_row:
  assumes "shape sh = [n, w]" "length (data sh) = n * w" "i < n"
  shows "row (tile3 sh) i = row sh i @ row sh i @ row sh i"
proof -
  have "row (from_rows n (3 * w) (\<lambda>i. row sh i @ row sh i @ row sh i)) i
        = row sh i @ row sh i @ row sh i"
    by (rule row_from_rows) (simp_all add: length_row [OF assms(1,2)] assms(3))
  then show ?thesis using assms(1) by (simp add: tile3_def nrows_def ncols_def)
qed

section \<open>The prediction adapter: materialising the canonical arrays\<close>

text \<open>
  Step 4 of \<^verbatim>\<open>reconstruct\<close>. A value found under an alias is a tensor;
  \<^verbatim>\<open>.detach().cpu().numpy()\<close> is its array, and \<^verbatim>\<open>.astype(np.float32)\<close> is the identity
  on the reals that stand for float32 values.
\<close>

record gaussians =
  pts3d_np :: "real ndarray"
  n_points :: nat
  opacity_np :: "real ndarray"
  scales_np :: "real ndarray"
  quats_np :: "real ndarray"
  sh_np :: "real ndarray"
  colors_rgb :: "real ndarray"

definition SH_C0 :: real where
  "SH_C0 = 0.28209479177387814"

text \<open>\<^verbatim>\<open>np.clip(x, lo, hi)\<close> on one element.\<close>

definition clip :: "real \<Rightarrow> real \<Rightarrow> real \<Rightarrow> real" where
  "clip x lo hi = min hi (max x lo)"

definition sh_dc_to_rgb :: "real ndarray \<Rightarrow> real ndarray" where
  "sh_dc_to_rgb sh_dc =
     NDArray (shape sh_dc) (map (\<lambda>x. clip (x * SH_C0 + 0.5) 0.0 1.0) (data sh_dc))"

text \<open>
  The body of the \<^verbatim>\<open>try\<close> block: the five lookups, the early error when no position
  alias resolves, then one array per field, taken from the result or from the default.
\<close>

definition extract_try :: "real ndarray prediction \<Rightarrow> error + gaussians" where
  "extract_try predictions =
     (let pts3d = extract_tensor predictions pts3d_keys;
          conf = extract_tensor predictions conf_keys;
          scales = extract_tensor predictions scales_keys;
          quats = extract_tensor predictions quats_keys;
          sh_coeffs = extract_tensor predictions sh_keys
      in case pts3d of
           None \<Rightarrow> Inl (HTTPException 500)
         | Some t \<Rightarrow>
             ebind (reshape_auto_cols 3 t) (\<lambda>pts.
               let n = nrows pts in
               ebind (case conf of
                        Some c \<Rightarrow> ebind (reshape_rows_auto n c) (\<lambda>r. Inr (take_cols 1 r))
                      | None \<Rightarrow> Inr (full n 1 (1 * 0.8))) (\<lambda>opacity.
               ebind (case scales of
                        Some s \<Rightarrow> reshape2 n 3 s
                      | None \<Rightarrow> Inr (full n 3 (- 5.0))) (\<lambda>scales'.
               ebind (case quats of
                        Some q \<Rightarrow> reshape2 n 4 q
                      | None \<Rightarrow> Inr (tile_rows [1, 0, 0, 0] n)) (\<lambda>quats'.
               ebind (case sh_coeffs of
                        Some s \<Rightarrow> reshape_rows_auto n s
                      | None \<Rightarrow> Inr (full n 3 0)) (\<lambda>sh.
                 let sh_dc = (if ncols sh \<ge> 3 then take_cols 3 sh
                              else tile3 (take_cols 1 sh))
                 in Inr \<lparr>pts3d_np = pts, n_points = n, opacity_np = opacity,
                          scales_np = scales', quats_np = quats', sh_np = sh,
                          colors_rgb = sh_dc_to_rgb sh_dc\<rparr>))))))"

text \<open>The \<^verbatim>\<open>except Exception\<close> handler turns every exception into the HTTP error 500.\<close>

definition extract_gaussians :: "real ndarray prediction \<Rightarrow> error + gaussians" where
  "extract_gaussians predictions =
     (case extract_try predictions of
        Inl e \<Rightarrow> Inl (HTTPException 500)
      | Inr g \<Rightarrow> Inr g)"

text \<open>
  When an optional field is present, its size has to suit the \<^verbatim>\<open>reshape\<close> applied to
  it: \<open>fits_auto\<close> for \<^verbatim>\<open>reshape(n_points, -1)\<close> (confidence, SH coefficients), \<open>fits\<close>
  for \<^verbatim>\<open>reshape(n_points, k)\<close> (scales, quaternions). An absent field always fits.
\<close>

fun fits_auto :: "nat \<Rightarrow> 'a ndarray option \<Rightarrow> bool" where
  "fits_auto N None = True"
| "fits_auto N (Some a) = (0 < N \<and> asize a mod N = 0)"

fun fits :: "nat \<Rightarrow> nat \<Rightarrow> 'a ndarray option \<Rightarrow> bool" where
  "fits N k None = True"
| "fits N k (Some a) = (asize a = N * k)"

lemma nrows_simps [simp]:
  "nrows (NDArray (n # ns) xs) = n"
  "nrows (full n k v) = n"
  "nrows (from_rows n w f) = n"
  "nrows (take_cols m a) = nrows a"
  "nrows (tile3 a) = nrows a"
  "nrows (tile_rows r n) = n"
  "nrows (sh_dc_to_rgb a) = nrows a"
  by (simp_all add: nrows_def full_def from_rows_def take_cols_def tile3_def tile_rows_def
      sh_dc_to_rgb_def)

lemma extract_try_ok:
  assumes "extract_tensor p pts3d_keys = Some t" and "asize t = 3 * N"
      and "fits_auto N (extract_tensor p conf_keys)"
      and "fits N 3 (extract_tensor p scales_keys)"
      and "fits N 4 (extract_tensor p quats_keys)"
      and "fits_auto N (extract_tensor p sh_keys)"
  shows "\<exists>g. extract_try p = Inr g
           \<and> pts3d_np g = NDArray [N, 3] (data t)
           \<and> n_points g = N
           \<and> opacity_np g = (case extract_tensor p conf_keys of
                                None \<Rightarrow> full N 1 0.8
                              | Some c \<Rightarrow> take_cols 1 (NDArray [N, asize c div N] (data c)))
           \<and> scales_np g = (case extract_tensor p scales_keys of
                                None \<Rightarrow> full N 3 (- 5)
                              | Some s \<Rightarrow> NDArray [N, 3] (data s))
           \<and> quats_np g = (case extract_tensor p quats_keys of
                                None \<Rightarrow> tile_rows [1, 0, 0, 0] N
                              | Some q \<Rightarrow> NDArray [N, 4] (data q))
           \<and> sh_np g = (case extract_tensor p sh_keys of
                                None \<Rightarrow> full N 3 0
                              | Some s \<Rightarrow> NDArray [N, asize s div N] (data s))
           \<and> colors_rgb g = sh_dc_to_rgb (if 3 \<le> ncols (sh_np g) then take_cols 3 (sh_np g)
                                           else tile3 (take_cols 1 (sh_np g)))"
proof -
  have pts: "reshape_auto_cols 3 t = Inr (NDArray [N, 3] (data t))"
    using assms(2) by (simp add: reshape_auto_cols_def)
  have c: "(case extract_tensor p conf_keys of
              Some c \<Rightarrow> ebind (reshape_rows_auto N c) (\<lambda>r. Inr (take_cols 1 r))
            | None \<Rightarrow> Inr (full N 1 (1 * 0.8)))
           = Inr (case extract_tensor p conf_keys of
                    None \<Rightarrow> full N 1 0.8
                  | Some c \<Rightarrow> take_cols 1 (NDArray [N, asize c div N] (data c)))"
    using assms(3) by (cases "extract_tensor p conf_keys") (simp_all add: reshape_rows_auto_def)
  have s: "(case extract_tensor p scales_keys of
              Some s \<Rightarrow> reshape2 N 3 s
            | None \<Rightarrow> Inr (full N 3 (- 5.0)))
           = Inr (case extract_tensor p scales_keys of
                    None \<Rightarrow> full N 3 (- 5)
                  | Some s \<Rightarrow> NDArray [N, 3] (data s))"
    using assms(4) by (cases "extract_tensor p scales_keys") (simp_all add: reshape2_def)
  have q: "(case extract_tensor p quats_keys of
              Some q \<Rightarrow> reshape2 N 4 q
            | None \<Rightarrow> Inr (tile_rows [1, 0, 0, 0] N))
           = Inr (case extract_tensor p quats_keys of
                    None \<Rightarrow> tile_rows [1, 0, 0, 0] N
                  | Some q \<Rightarrow> NDArray [N, 4] (data q))"
    using assms(5) by (cases "extract_tensor p quats_keys") (simp_all add: reshape2_def)
  have h: "(case extract_tensor p sh_keys of
              Some s \<Rightarrow> reshape_rows_auto N s
            | None \<Rightarrow> Inr (full N 3 0))
           = Inr (case extract_tensor p sh_keys of
                    None \<Rightarrow> full N 3 0
                  | Some s \<Rightarrow> NDArray [N, asize s div N] (data s))"
    using assms(6) by (cases "extract_tensor p sh_keys") (simp_all add: reshape_rows_auto_def)
  show ?thesis
    unfolding extract_try_def Let_def assms(1) option.case pts ebind_Inr nrows_simps c s q h
    by simp
qed

lemma extract_gaussians_ok:
  "extract_try p = Inr g \<Longrightarrow> extract_gaussians p = Inr g"
  by (simp add: extract_gaussians_def)

text \<open>
  The extraction on its own, for every number of points (zero included): when the
  positions resolve to a tensor of \<open>3 * N\<close> numbers and each optional field is absent
  or of a size that suits its reshape, the extraction succeeds with \<open>N\<close> points, all
  six per-point arrays have \<open>N\<close> rows, and every absent field is its default at every
  point.
\<close>

lemma extraction_defaults:
  assumes "extract_tensor p pts3d_keys = Some t" and "asize t = 3 * N"
      and "fits_auto N (extract_tensor p conf_keys)"
      and "fits N 3 (extract_tensor p scales_keys)"
      and "fits N 4 (extract_tensor p quats_keys)"
      and "fits_auto N (extract_tensor p sh_keys)"
  shows "\<exists>g. extract_gaussians p = Inr g
           \<and> n_points g = N
           \<and> list_all (\<lambda>a. nrows a = N)
                [pts3d_np g, opacity_np g, scales_np g, quats_np g, sh_np g, colors_rgb g]
           \<and> (extract_tensor p conf_keys = None \<longrightarrow>
                 opacity_np g = NDArray [N, 1] (replicate N 0.8)
               \<and> (\<forall>i<N. row (opacity_np g) i = [0.8]))
           \<and> (extract_tensor p scales_keys = None \<longrightarrow>
                 scales_np g = NDArray [N, 3] (replicate (N * 3) (- 5))
               \<and> (\<forall>i<N. row (scales_np g) i = [- 5, - 5, - 5]))
           \<and> (extract_tensor p quats_keys = None \<longrightarrow>
                 quats_np g = NDArray [N, 4] (concat (replicate N [1, 0, 0, 0]))
               \<and> (\<forall>i<N. row (quats_np g) i = [1, 0, 0, 0]))
           \<and> (extract_tensor p sh_keys = None \<longrightarrow>
                 sh_np g = NDArray [N, 3] (replicate (N * 3) 0)
               \<and> (\<forall>i<N. row (sh_np g) i = [0, 0, 0]))"
proof -
  obtain g where g: "extract_try p = Inr g"
      and pts: "pts3d_np g = NDArray [N, 3] (data t)"
      and n: "n_points g = N"
      and op: "opacity_np g = (case extract_tensor p conf_keys of
                                None \<Rightarrow> full N 1 0.8
                              | Some c \<Rightarrow> take_cols 1 (NDArray [N, asize c div N] (data c)))"
      and sc: "scales_np g = (case extract_tensor p scales_keys of
                                None \<Rightarrow> full N 3 (- 5)
                              | Some s \<Rightarrow> NDArray [N, 3] (data s))"
      and qu: "quats_np g = (case extract_tensor p quats_keys of
                                None \<Rightarrow> tile_rows [1, 0, 0, 0] N
                              | Some q \<Rightarrow> NDArray [N, 4] (data q))"
      and sh: "sh_np g = (case extract_tensor p sh_keys of
                                None \<Rightarrow> full N 3 0
                              | Some s \<Rightarrow> NDArray [N, asize s div N] (data s))"
      and co: "colors_rgb g = sh_dc_to_rgb (if 3 \<le> ncols (sh_np g) then take_cols 3 (sh_np g)
                                           else tile3 (take_cols 1 (sh_np g)))"
    using extract_try_ok [OF assms] by blast
  have r1: "nrows (pts3d_np g) = N" using pts by simp
  have r2: "nrows (opacity_np g) = N" using op by (simp split: option.splits)
  have r3: "nrows (scales_np g) = N" using sc by (simp split: option.splits)
  have r4: "nrows (quats_np g) = N" using qu by (simp split: option.splits)
  have r5: "nrows (sh_np g) = N" using sh by (simp split: option.splits)
  have r6: "nrows (colors_rgb g) = N" using co r5 by simp
  have d1: "opacity_np g = NDArray [N, 1] (replicate N 0.8) \<and> (\<forall>i<N. row (opacity_np g) i = [0.8])"
    if "extract_tensor p conf_keys = None"
    using that op row_full [of _ N 1 "0.8::real"] by (simp add: full_def)
  have d2: "scales_np g = NDArray [N, 3] (replicate (N * 3) (- 5))
            \<and> (\<forall>i<N. row (scales_np g) i = [- 5, - 5, - 5])"
    if "extract_tensor p scales_keys = None"
    using that sc row_full [of _ N 3 "- 5::real"] by (simp add: full_def numeral_3_eq_3)
  have d3: "quats_np g = NDArray [N, 4] (concat (replicate N [1, 0, 0, 0]))
            \<and> (\<forall>i<N. row (quats_np g) i = [1, 0, 0, 0])"
    if "extract_tensor p quats_keys = None"
    using that qu row_tile_rows [of _ N "[1, 0, 0, 0::real]"]
    by (simp add: tile_rows_def from_rows_def map_const_upt)
  have d4: "sh_np g = NDArray [N, 3] (replicate (N * 3) 0) \<and> (\<forall>i<N. row (sh_np g) i = [0, 0, 0])"
    if "extract_tensor p sh_keys = None"
    using that sh row_full [of _ N 3 "0::real"] by (simp add: full_def numeral_3_eq_3)
  have la: "list_all (\<lambda>a. nrows a = N)
                [pts3d_np g, opacity_np g, scales_np g, quats_np g, sh_np g, colors_rgb g]"
    using r1 r2 r3 r4 r5 r6 by simp
  show ?thesis
    using extract_gaussians_ok [OF g] n la d1 d2 d3 d4
    by (intro exI [of _ g]) blast
qed

section \<open>The Gaussian point-cloud encoder\<close>

text \<open>
  \<^verbatim>\<open>write_gaussian_ply\<close>. The file is a byte string, and so is \<open>char list\<close>: a \<open>char\<close> is
  one byte. The model returns the contents of the file when every write succeeds and
  the exception otherwise (the partial file an exception leaves behind is not kept).
  \<^verbatim>\<open>struct.pack\<close> is a library: \<open>pk\<close> is its encoding of one float32 (four bytes,
  little-endian, for every value), a parameter of the model. The element type is
  abstract, with a zero for the normals.
\<close>

type_synonym bytes = "char list"

subsection \<open>The header\<close>

text \<open>\<^verbatim>\<open>f"{n}"\<close> for a natural number: decimal, no leading zero.\<close>

definition digit_char :: "nat \<Rightarrow> char" where
  "digit_char d = ''0123456789'' ! d"

function str_nat :: "nat \<Rightarrow> string" where
  "str_nat n = (if n < 10 then [digit_char n] else str_nat (n div 10) @ [digit_char (n mod 10)])"
  by pat_completeness auto
termination
  by (relation "measure (\<lambda>n. n)") auto

declare str_nat.simps [simp del]

text \<open>\<^verbatim>\<open>sep.join(lines)\<close>\<close>

fun join :: "string \<Rightarrow> string list \<Rightarrow> string" where
  "join sep [] = []"
| "join sep [l] = l"
| "join sep (l # m # ls) = l @ sep @ join sep (m # ls)"

text \<open>
  \<^verbatim>\<open>rest_count = n_sh_per_channel - 1\<close> is \<open>-1\<close> in Python when the group length is 0,
  and \<^verbatim>\<open>range(rest_count * 3)\<close> is then empty, as it is for the truncated difference.
\<close>

definition header_lines :: "nat \<Rightarrow> nat \<Rightarrow> string list" where
  "header_lines n n_sh_per_channel =
     [''ply'',
      ''format binary_little_endian 1.0'',
      ''element vertex '' @ str_nat n,
      ''property float x'',
      ''property float y'',
      ''property float z'',
      ''property float nx'',
      ''property float ny'',
      ''property float nz'']
     @ map (\<lambda>i. ''property float f_dc_'' @ str_nat i) [0..<3]
     @ map (\<lambda>i. ''property float f_rest_'' @ str_nat i) [0..<(n_sh_per_channel - 1) * 3]
     @ [''property float opacity'']
     @ map (\<lambda>i. ''property float scale_'' @ str_nat i) [0..<3]
     @ map (\<lambda>i. ''property float rot_'' @ str_nat i) [0..<4]
     @ [''end_header'']"

definition ply_header :: "nat \<Rightarrow> nat \<Rightarrow> string" where
  "ply_header n n_sh_per_channel =
     join ''\<newline>'' (header_lines n n_sh_per_channel) @ ''\<newline>''"

subsection \<open>Preparing the arrays\<close>

text \<open>
  \<^verbatim>\<open>opacities = opacities.reshape(n, -1)\<close>, then the first column when there are
  several.
\<close>

definition prepare_opacities :: "nat \<Rightarrow> 'a ndarray \<Rightarrow> error + 'a ndarray" where
  "prepare_opacities n opacities =
     ebind (reshape_rows_auto n opacities)
       (\<lambda>r. Inr (if ncols r \<noteq> 1 then take_cols 1 r else r))"

text \<open>
  The SH degree: a width divisible by 3 is split as it is; any other array is reshaped
  to \<open>n\<close> rows and each row is repeated three times. The result is the array to split
  and the group length \<^verbatim>\<open>n_sh_per_channel\<close>.
\<close>

definition prepare_sh :: "nat \<Rightarrow> 'a ndarray \<Rightarrow> error + ('a ndarray \<times> nat)" where
  "prepare_sh n sh =
     (let sh_dim = (if ndim sh = 2 then ncols sh else 1)
      in if sh_dim mod 3 = 0 then Inr (sh, sh_dim div 3)
         else ebind (reshape_rows_auto n sh)
                (\<lambda>r. Inr (tile3 r, ncols (tile3 r) div 3)))"

text \<open>
  For \<^verbatim>\<open>sh_flat\<close> of shape \<open>(n, c, K)\<close>: the elements of point \<open>i\<close>, then
  \<^verbatim>\<open>sh_flat[:, :, 0]\<close> (an \<^verbatim>\<open>IndexError\<close> when \<open>K = 0\<close>) and \<^verbatim>\<open>sh_flat[:, :, 1:]\<close>.
\<close>

definition block :: "'a ndarray \<Rightarrow> nat \<Rightarrow> 'a list" where
  "block a i = take (shape a ! 1 * shape a ! 2) (drop (i * (shape a ! 1 * shape a ! 2)) (data a))"

definition first_of_each_channel :: "'a ndarray \<Rightarrow> error + 'a ndarray" where
  "first_of_each_channel sh_flat =
     (if shape sh_flat ! 2 = 0 then Inl IndexError
      else Inr (from_rows (shape sh_flat ! 0) (shape sh_flat ! 1)
                  (\<lambda>i. map (\<lambda>c. block sh_flat i ! (c * shape sh_flat ! 2))
                          [0..<shape sh_flat ! 1])))"

definition rest_of_each_channel :: "'a ndarray \<Rightarrow> 'a ndarray" where
  "rest_of_each_channel sh_flat =
     NDArray [shape sh_flat ! 0, shape sh_flat ! 1, shape sh_flat ! 2 - 1]
       (concat (map (\<lambda>i. concat (map (\<lambda>c. take (shape sh_flat ! 2 - 1)
                                   (drop (c * shape sh_flat ! 2 + 1) (block sh_flat i)))
                              [0..<shape sh_flat ! 1]))
                 [0..<shape sh_flat ! 0]))"

text \<open>
  \<^verbatim>\<open>sh_flat = sh.reshape(n, 3, n_sh_per_channel)\<close>, \<^verbatim>\<open>f_dc\<close> and \<^verbatim>\<open>f_rest\<close>.
\<close>

definition split_sh ::
  "nat \<Rightarrow> 'a::zero ndarray \<Rightarrow> nat \<Rightarrow> error + ('a ndarray \<times> 'a ndarray)" where
  "split_sh n sh n_sh_per_channel =
     ebind (reshape3 n 3 n_sh_per_channel sh) (\<lambda>sh_flat.
       ebind (first_of_each_channel sh_flat) (\<lambda>f_dc.
         ebind (if n_sh_per_channel > 1
                then reshape_rows_auto n (rest_of_each_channel sh_flat)
                else Inr (full n 0 0))
           (\<lambda>f_rest. Inr (f_dc, f_rest))))"

subsection \<open>Writing the records\<close>

text \<open>
  \<^verbatim>\<open>struct.pack(f"<{k}f", *xs)\<close> raises \<^verbatim>\<open>struct.error\<close> unless it is given exactly \<open>k\<close>
  values. \<^verbatim>\<open>*a[i]\<close> unpacks row \<open>i\<close> of a two-dimensional array; indexing past the
  first axis is an \<^verbatim>\<open>IndexError\<close>, unpacking a scalar (rank 1) a \<^verbatim>\<open>TypeError\<close>, and
  the sub-arrays of an array of higher rank are not floats (but for sub-arrays of a
  single element, which the canonical shapes exclude).
\<close>

definition struct_pack :: "('a \<Rightarrow> bytes) \<Rightarrow> nat \<Rightarrow> 'a list \<Rightarrow> error + bytes" where
  "struct_pack pk k xs = (if length xs = k then Inr (concat (map pk xs)) else Inl StructError)"

definition unpack_row :: "'a ndarray \<Rightarrow> nat \<Rightarrow> error + 'a list" where
  "unpack_row a i =
     (if ndim a = 0 then Inl IndexError
      else if nrows a \<le> i then Inl IndexError
      else if ndim a = 1 then Inl TypeError
      else if ndim a = 2 then Inr (row a i)
      else Inl StructError)"

text \<open>\<^verbatim>\<open>a[i, j]\<close> on a two-dimensional array.\<close>

definition item2 :: "'a ndarray \<Rightarrow> nat \<Rightarrow> nat \<Rightarrow> error + 'a" where
  "item2 a i j =
     (if i < nrows a \<and> j < ncols a then Inr (data a ! (i * ncols a + j)) else Inl IndexError)"

text \<open>Two writes in sequence: the first exception ends the function.\<close>

definition eapp :: "error + bytes \<Rightarrow> error + bytes \<Rightarrow> error + bytes" where
  "eapp a b = ebind a (\<lambda>x. ebind b (\<lambda>y. Inr (x @ y)))"

text \<open>The body of the loop over the points: the seven writes of point \<open>i\<close>.\<close>

definition write_point ::
  "('a \<Rightarrow> bytes) \<Rightarrow> 'a ndarray \<Rightarrow> 'a ndarray \<Rightarrow> 'a ndarray \<Rightarrow> 'a ndarray \<Rightarrow> 'a ndarray \<Rightarrow>
   'a ndarray \<Rightarrow> 'a ndarray \<Rightarrow> nat \<Rightarrow> error + bytes" where
  "write_point pk means normals f_dc f_rest opacities scales quats i =
     eapp (ebind (unpack_row means i) (struct_pack pk 3))
    (eapp (ebind (unpack_row normals i) (struct_pack pk 3))
    (eapp (ebind (unpack_row f_dc i) (struct_pack pk 3))
    (eapp (if ncols f_rest > 0
           then ebind (unpack_row f_rest i) (struct_pack pk (ncols f_rest))
           else Inr [])
    (eapp (ebind (item2 opacities i 0) (\<lambda>x. struct_pack pk 1 [x]))
    (eapp (ebind (unpack_row scales i) (struct_pack pk 3))
          (ebind (unpack_row quats i) (struct_pack pk 4)))))))"

fun write_points :: "(nat \<Rightarrow> error + bytes) \<Rightarrow> nat list \<Rightarrow> error + bytes" where
  "write_points f [] = Inr []"
| "write_points f (i # is) = eapp (f i) (write_points f is)"

definition write_gaussian_ply ::
  "('a::zero \<Rightarrow> bytes) \<Rightarrow> 'a ndarray \<Rightarrow> 'a ndarray \<Rightarrow> 'a ndarray \<Rightarrow> 'a ndarray \<Rightarrow> 'a ndarray \<Rightarrow>
   error + bytes" where
  "write_gaussian_ply pk means opacities0 scales quats sh0 =
     (if ndim means = 0 then Inl IndexError
      else
        let n = nrows means in
        ebind (prepare_opacities n opacities0) (\<lambda>opacities.
          ebind (prepare_sh n sh0) (\<lambda>(sh, n_sh_per_channel).
            let header = ply_header n n_sh_per_channel in
            ebind (split_sh n sh n_sh_per_channel) (\<lambda>(f_dc, f_rest).
              let normals = full n 3 0 in
              ebind (write_points
                       (write_point pk means normals f_dc f_rest opacities scales quats)
                       [0..<n])
                (\<lambda>body. Inr (header @ body))))))"

text \<open>
  A concrete \<open>pk\<close> for closed examples: a float32 as its 32-bit pattern, least
  significant byte first.
\<close>

definition pk_w32 :: "32 word \<Rightarrow> bytes" where
  "pk_w32 w = map (\<lambda>k. char_of (unat (drop_bit (8 * k) w))) [0, 1, 2, 3]"

subsection \<open>A reader for the file\<close>

text \<open>
  The encoder has no reader in the repository. To state what parsing the file back
  recovers, this is a reader of the binary little-endian PLY layout restricted to one
  vertex element with float properties: it reads lines up to \<^verbatim>\<open>end_header\<close>, takes the
  vertex count and the property names from them, requires the body to be exactly
  \<open>count * 4 * properties\<close> bytes, and cuts it into records of four-byte fields.
\<close>

fun split_header :: "string \<Rightarrow> string list \<Rightarrow> bytes \<Rightarrow> (string list \<times> bytes) option" where
  "split_header cur ls [] = None"
| "split_header cur ls (c # cs) =
     (if c = CHR ''\<newline>''
      then (if rev cur = ''end_header'' then Some (rev ls, cs)
            else split_header [] (rev cur # ls) cs)
      else split_header (c # cur) ls cs)"

fun strip_prefix :: "string \<Rightarrow> string \<Rightarrow> string option" where
  "strip_prefix [] s = Some s"
| "strip_prefix (p # ps) [] = None"
| "strip_prefix (p # ps) (c # cs) = (if p = c then strip_prefix ps cs else None)"

definition digit_val :: "char \<Rightarrow> nat option" where
  "digit_val = map_of
     [(CHR ''0'', 0), (CHR ''1'', 1), (CHR ''2'', 2), (CHR ''3'', 3), (CHR ''4'', 4),
      (CHR ''5'', 5), (CHR ''6'', 6), (CHR ''7'', 7), (CHR ''8'', 8), (CHR ''9'', 9)]"

fun parse_digits :: "nat \<Rightarrow> string \<Rightarrow> nat option" where
  "parse_digits acc [] = Some acc"
| "parse_digits acc (c # cs) =
     (case digit_val c of None \<Rightarrow> None | Some d \<Rightarrow> parse_digits (10 * acc + d) cs)"

definition parse_nat :: "string \<Rightarrow> nat option" where
  "parse_nat s = (if s = [] then None else parse_digits 0 s)"

fun property_names :: "string list \<Rightarrow> string list option" where
  "property_names [] = Some []"
| "property_names (l # ls) =
     (case strip_prefix ''property float '' l of
        None \<Rightarrow> None
      | Some name \<Rightarrow> (case property_names ls of None \<Rightarrow> None | Some ns \<Rightarrow> Some (name # ns)))"

fun parse_header :: "string list \<Rightarrow> (nat \<times> string list) option" where
  "parse_header (l1 # l2 # l3 # props) =
     (if l1 = ''ply'' \<and> l2 = ''format binary_little_endian 1.0''
      then (case strip_prefix ''element vertex '' l3 of
              None \<Rightarrow> None
            | Some s \<Rightarrow> (case parse_nat s of
                          None \<Rightarrow> None
                        | Some n \<Rightarrow> (case property_names props of
                                      None \<Rightarrow> None
                                    | Some names \<Rightarrow> Some (n, names))))
      else None)"
| "parse_header _ = None"

fun chunks :: "nat \<Rightarrow> nat \<Rightarrow> 'a list \<Rightarrow> 'a list list" where
  "chunks 0 k xs = []"
| "chunks (Suc m) k xs = take k xs # chunks m k (drop k xs)"

definition ply_parse :: "bytes \<Rightarrow> (nat \<times> string list \<times> bytes list list) option" where
  "ply_parse file =
     (case split_header [] [] file of
        None \<Rightarrow> None
      | Some (ls, body) \<Rightarrow>
          (case parse_header ls of
             None \<Rightarrow> None
           | Some (n, names) \<Rightarrow>
               if length body = n * (4 * length names)
               then Some (n, names, map (chunks (length names) 4) (chunks n (4 * length names) body))
               else None))"

subsection \<open>What the encoder writes\<close>

text \<open>
  The property list of the header for group length \<open>K\<close>, and the fields of point \<open>i\<close>
  in the order of that list: position, the zero normal, the first coefficient of each
  of the three groups, the remaining coefficients group by group, opacity, scale,
  rotation.
\<close>

definition property_list :: "nat \<Rightarrow> string list" where
  "property_list K =
     [''x'', ''y'', ''z'', ''nx'', ''ny'', ''nz'']
     @ map (\<lambda>i. ''f_dc_'' @ str_nat i) [0..<3]
     @ map (\<lambda>i. ''f_rest_'' @ str_nat i) [0..<3 * (K - 1)]
     @ [''opacity'']
     @ map (\<lambda>i. ''scale_'' @ str_nat i) [0..<3]
     @ map (\<lambda>i. ''rot_'' @ str_nat i) [0..<4]"

definition dc_terms :: "nat \<Rightarrow> 'a list \<Rightarrow> 'a list" where
  "dc_terms K r = map (\<lambda>c. r ! (c * K)) [0..<3]"

definition rest_terms :: "nat \<Rightarrow> 'a list \<Rightarrow> 'a list" where
  "rest_terms K r = concat (map (\<lambda>c. take (K - 1) (drop (c * K + 1) r)) [0..<3])"

definition point_fields ::
  "'a::zero ndarray \<Rightarrow> 'a ndarray \<Rightarrow> nat \<Rightarrow> 'a ndarray \<Rightarrow> 'a ndarray \<Rightarrow> 'a ndarray \<Rightarrow> nat \<Rightarrow>
   'a list" where
  "point_fields means sh K opacities scales quats i =
     row means i @ replicate 3 0 @ dc_terms K (row sh i) @ rest_terms K (row sh i)
     @ [data opacities ! i] @ row scales i @ row quats i"

definition property_line :: "string \<Rightarrow> string" where
  "property_line name = ''property float '' @ name"

definition vertex_line :: "nat \<Rightarrow> string" where
  "vertex_line n = ''element vertex '' @ str_nat n"

subsection \<open>The records and the header, step by step\<close>

lemma eapp_Inr [simp]: "eapp (Inr x) (Inr y) = Inr (x @ y)"
  by (simp add: eapp_def)

lemma write_points_ok:
  "(\<And>i. i \<in> set is \<Longrightarrow> f i = Inr (g i)) \<Longrightarrow> write_points f is = Inr (concat (map g is))"
  by (induction "is") simp_all

lemma struct_pack_ok: "length xs = k \<Longrightarrow> struct_pack pk k xs = Inr (concat (map pk xs))"
  by (simp add: struct_pack_def)

lemma unpack_row_2d:
  "i < n \<Longrightarrow> unpack_row (NDArray [n, w] xs) i = Inr (take w (drop (i * w) xs))"
  by (simp add: unpack_row_def ndim_def nrows_def)

lemma pack_row_ok:
  "shape a = [n, w] \<Longrightarrow> length (data a) = n * w \<Longrightarrow> i < n \<Longrightarrow>
   ebind (unpack_row a i) (struct_pack pk w) = Inr (concat (map pk (row a i)))"
proof -
  assume sh: "shape a = [n, w]" and len: "length (data a) = n * w" and i: "i < n"
  have a: "a = NDArray [n, w] (data a)" using sh by (cases a) simp
  have "length (row a i) = w"
    using length_chunk [OF i len] a by (metis row_2d)
  then have "struct_pack pk w (row a i) = Inr (concat (map pk (row a i)))"
    by (rule struct_pack_ok)
  moreover have "unpack_row a i = Inr (row a i)"
    using unpack_row_2d [OF i, of w "data a"] a by (metis row_2d)
  ultimately show ?thesis by simp
qed

lemma prepare_opacities_ok:
  "0 < n \<Longrightarrow> asize a = n \<Longrightarrow> prepare_opacities n a = Inr (NDArray [n, 1] (data a))"
  by (simp add: prepare_opacities_def reshape_rows_auto_def ncols_def)

lemma item2_col: "i < n \<Longrightarrow> item2 (NDArray [n, Suc 0] xs) i 0 = Inr (xs ! i)"
  by (simp add: item2_def nrows_def ncols_def)

lemma prepare_sh_divisible:
  "shape sh = [n, 3 * K] \<Longrightarrow> prepare_sh n sh = Inr (sh, K)"
  by (simp add: prepare_sh_def ndim_def ncols_def)

lemma prepare_sh_tiled:
  "shape sh = [n, w] \<Longrightarrow> w mod 3 \<noteq> 0 \<Longrightarrow> 0 < n \<Longrightarrow>
   prepare_sh n sh = Inr (tile3 sh, w)"
  by (cases sh)
     (simp add: prepare_sh_def ndim_def ncols_def reshape_rows_auto_def asize_def tile3_def
        from_rows_def nrows_def)


lemma length_dc_terms [simp]: "length (dc_terms K r) = 3"
  by (simp add: dc_terms_def)

lemma length_rest_terms: "length r = 3 * K \<Longrightarrow> length (rest_terms K r) = 3 * (K - 1)"
  by (simp add: rest_terms_def upt_conv_Cons numeral_3_eq_3)

lemma block_3d: "block (NDArray [n, 3, K] xs) i = row (NDArray [n, 3 * K] xs) i"
  by (simp add: block_def)

lemma split_sh_ok:
  assumes sh: "shape sh = [n, 3 * K]" and K: "0 < K" and n: "0 < n"
  shows "split_sh n sh K =
           Inr (from_rows n 3 (\<lambda>i. dc_terms K (row sh i)),
                if 1 < K then from_rows n (3 * (K - 1)) (\<lambda>i. rest_terms K (row sh i))
                else full n 0 0)"
proof -
  have a: "sh = NDArray [n, 3 * K] (data sh)" using sh by (cases sh) simp
  have r: "reshape3 n 3 K sh = Inr (NDArray [n, 3, K] (data sh))"
    using sh by (simp add: reshape3_def asize_def)
  have blk: "\<And>i. block (NDArray [n, 3, K] (data sh)) i = row sh i"
    using a block_3d by metis
  have dc: "first_of_each_channel (NDArray [n, 3, K] (data sh))
              = Inr (from_rows n 3 (\<lambda>i. dc_terms K (row sh i)))"
    using K by (simp add: first_of_each_channel_def blk dc_terms_def)
  have rest: "rest_of_each_channel (NDArray [n, 3, K] (data sh))
              = NDArray [n, 3, K - 1] (concat (map (\<lambda>i. rest_terms K (row sh i)) [0..<n]))"
    by (simp add: rest_of_each_channel_def blk rest_terms_def)
  have rr: "reshape_rows_auto n (NDArray [n, 3, m] xs)
              = Inr (NDArray [n, 3 * m] xs)" for xs :: "'a list" and m
    using n by (simp add: reshape_rows_auto_def asize_def)
  show ?thesis
    by (simp add: split_sh_def r dc rest rr from_rows_def)
qed

lemma write_point_ok:
  assumes means: "shape means = [n, 3]" "length (data means) = n * 3"
      and scales: "shape scales = [n, 3]" "length (data scales) = n * 3"
      and quats: "shape quats = [n, 4]" "length (data quats) = n * 4"
      and sh: "shape sh = [n, 3 * K]" "length (data sh) = n * (3 * K)"
      and K: "0 < K" and i: "i < n"
  shows "write_point pk means (full n 3 0)
           (from_rows n 3 (\<lambda>i. dc_terms K (row sh i)))
           (if 1 < K then from_rows n (3 * (K - 1)) (\<lambda>i. rest_terms K (row sh i))
            else full n 0 0)
           (NDArray [n, 1] ops) scales quats i
         = Inr (concat (map pk (point_fields means sh K (NDArray [n, 1] ops) scales quats i)))"
proof -
  have a: "sh = NDArray [n, 3 * K] (data sh)" using sh by (cases sh) simp
  have lr: "length (row sh j) = 3 * K" if "j < n" for j
    using length_chunk [OF that sh(2)] a by (metis row_2d)
  have m: "ebind (unpack_row means i) (struct_pack pk 3) = Inr (concat (map pk (row means i)))"
    using pack_row_ok [OF means i] .
  have nm: "ebind (unpack_row (full n 3 0) i) (struct_pack pk 3)
              = Inr (concat (map pk (replicate 3 (0::'a))))"
    using pack_row_ok [of "full n 3 (0::'a)" n 3 i pk] i row_full [OF i, of 3 "0::'a"]
    by (simp add: full_def)
  have dc: "ebind (unpack_row (from_rows n 3 (\<lambda>i. dc_terms K (row sh i))) i) (struct_pack pk 3)
              = Inr (concat (map pk (dc_terms K (row sh i))))"
    using i row_from_rows [of n "\<lambda>i. dc_terms K (row sh i)" 3 i]
    by (simp add: unpack_row_def ndim_def nrows_def from_rows_def struct_pack_ok)
  have rs: "(if ncols (if 1 < K then from_rows n (3 * (K - 1)) (\<lambda>i. rest_terms K (row sh i))
                       else full n 0 0) > 0
             then ebind (unpack_row (if 1 < K then from_rows n (3 * (K - 1)) (\<lambda>i. rest_terms K (row sh i))
                       else full n 0 0) i)
                    (struct_pack pk (ncols (if 1 < K then from_rows n (3 * (K - 1)) (\<lambda>i. rest_terms K (row sh i))
                       else full n 0 0)))
             else Inr [])
            = Inr (concat (map pk (rest_terms K (row sh i))))"
  proof (cases "1 < K")
    case True
    have "row (from_rows n (3 * (K - 1)) (\<lambda>i. rest_terms K (row sh i))) i = rest_terms K (row sh i)"
      using row_from_rows [of n "\<lambda>i. rest_terms K (row sh i)" "3 * (K - 1)" i] i lr
      by (simp add: length_rest_terms)
    then show ?thesis
      using True i lr [OF i]
      by (simp add: unpack_row_def ndim_def nrows_def ncols_def from_rows_def struct_pack_ok
          length_rest_terms)
  next
    case False
    then have "K = 1" using K by simp
    then show ?thesis by (simp add: full_def ncols_def rest_terms_def)
  qed
  have op: "ebind (item2 (NDArray [n, 1] ops) i 0) (\<lambda>x. struct_pack pk 1 [x]) = Inr (pk (ops ! i))"
    using i by (simp add: item2_col struct_pack_def)
  have s: "ebind (unpack_row scales i) (struct_pack pk 3) = Inr (concat (map pk (row scales i)))"
    using pack_row_ok [OF scales i] .
  have q: "ebind (unpack_row quats i) (struct_pack pk 4) = Inr (concat (map pk (row quats i)))"
    using pack_row_ok [OF quats i] .
  show ?thesis
    unfolding write_point_def m nm dc rs op s q
    by (simp add: point_fields_def)
qed


lemma encoder_core:
  assumes means: "shape means = [n, 3]" "length (data means) = n * 3"
      and scales: "shape scales = [n, 3]" "length (data scales) = n * 3"
      and quats: "shape quats = [n, 4]" "length (data quats) = n * 4"
      and ops: "asize opacities = n"
      and prep: "prepare_sh n sh0 = Inr (sh, K)"
      and sh: "shape sh = [n, 3 * K]" "length (data sh) = n * (3 * K)"
      and K: "0 < K" and n: "0 < n"
  shows "write_gaussian_ply pk means opacities scales quats sh0
         = Inr (ply_header n K
                @ concat (map (\<lambda>i. concat (map pk (point_fields means sh K opacities scales quats i)))
                            [0..<n]))"
proof -
  have nd: "ndim means \<noteq> 0" "nrows means = n"
    using means by (simp_all add: ndim_def nrows_def)
  have pf: "point_fields means sh K (NDArray [n, 1] (data opacities)) scales quats i
            = point_fields means sh K opacities scales quats i" for i
    by (simp add: point_fields_def)
  have wp: "write_points
              (write_point pk means (full n 3 0)
                 (from_rows n 3 (\<lambda>i. dc_terms K (row sh i)))
                 (if 1 < K then from_rows n (3 * (K - 1)) (\<lambda>i. rest_terms K (row sh i))
                  else full n 0 0)
                 (NDArray [n, 1] (data opacities)) scales quats) [0..<n]
            = Inr (concat (map (\<lambda>i. concat (map pk (point_fields means sh K opacities scales quats i)))
                            [0..<n]))"
  proof (rule write_points_ok)
    fix i assume "i \<in> set [0..<n]"
    then have i: "i < n" by simp
    show "write_point pk means (full n 3 0)
                 (from_rows n 3 (\<lambda>i. dc_terms K (row sh i)))
                 (if 1 < K then from_rows n (3 * (K - 1)) (\<lambda>i. rest_terms K (row sh i))
                  else full n 0 0)
                 (NDArray [n, 1] (data opacities)) scales quats i
          = Inr (concat (map pk (point_fields means sh K opacities scales quats i)))"
      using write_point_ok [OF means scales quats sh K i, of pk "data opacities"]
      by (simp only: pf)
  qed
  show ?thesis
    unfolding write_gaussian_ply_def
    using nd prep wp
    by (simp add: Let_def prepare_opacities_ok [OF n ops] split_sh_ok [OF sh(1) K n])
qed

lemma length_property_list: "length (property_list K) = 17 + 3 * (K - 1)"
  by (simp add: property_list_def)

lemma header_lines_eq:
  "header_lines n K =
     [''ply'', ''format binary_little_endian 1.0'', vertex_line n]
     @ map property_line (property_list K)
     @ [''end_header'']"
  by (simp add: header_lines_def property_list_def mult.commute property_line_def
      vertex_line_def)

lemma join_newline:
  "ls \<noteq> [] \<Longrightarrow> join sep ls @ sep = concat (map (\<lambda>l. l @ sep) ls)"
  by (induction sep ls rule: join.induct) simp_all

lemma digit_cases:
  "d < 10 \<Longrightarrow> d = 0 \<or> d = 1 \<or> d = 2 \<or> d = 3 \<or> d = 4 \<or> d = 5 \<or> d = 6 \<or> d = 7
     \<or> d = 8 \<or> d = (9::nat)"
  by arith

lemma digit_char_in: "d < 10 \<Longrightarrow> digit_char d \<in> set ''0123456789''"
  using digit_cases [of d] by (auto simp: digit_char_def)

lemma str_nat_digits: "set (str_nat n) \<subseteq> set ''0123456789''"
proof (induction n rule: str_nat.induct)
  case (1 n)
  show ?case
  proof (cases "n < 10")
    case True
    then show ?thesis using digit_char_in [of n] by (subst str_nat.simps) simp
  next
    case False
    have "n mod 10 < 10" by simp
    then show ?thesis
      using False 1 digit_char_in [of "n mod 10"] by (subst str_nat.simps) simp
  qed
qed

lemma str_nat_no_newline: "CHR ''\<newline>'' \<notin> set (str_nat n)"
  using str_nat_digits [of n] by auto

lemma split_header_line:
  "CHR ''\<newline>'' \<notin> set l \<Longrightarrow>
   split_header cur ls (l @ CHR ''\<newline>'' # rest) =
     (if rev cur @ l = ''end_header'' then Some (rev ls, rest)
      else split_header [] ((rev cur @ l) # ls) rest)"
  by (induction l arbitrary: cur) auto

lemma split_header_lines:
  "\<forall>l\<in>set pre. CHR ''\<newline>'' \<notin> set l \<and> l \<noteq> ''end_header'' \<Longrightarrow>
   split_header [] ls (concat (map (\<lambda>l. l @ ''\<newline>'') pre) @ ''end_header'' @ CHR ''\<newline>'' # rest)
     = Some (rev ls @ pre, rest)"
proof (induction pre arbitrary: ls)
  case Nil
  show ?case using split_header_line [of "''end_header''" "[]" ls rest] by simp
next
  case (Cons l pre)
  have "split_header [] ls (l @ CHR ''\<newline>'' # (concat (map (\<lambda>l. l @ ''\<newline>'') pre) @ ''end_header'' @ CHR ''\<newline>'' # rest))
        = split_header [] (l # ls) (concat (map (\<lambda>l. l @ ''\<newline>'') pre) @ ''end_header'' @ CHR ''\<newline>'' # rest)"
    using Cons.prems by (subst split_header_line) simp_all
  then show ?case using Cons by simp
qed


lemma property_list_no_newline:
  "name \<in> set (property_list K) \<Longrightarrow> CHR ''\<newline>'' \<notin> set name"
  by (auto simp: property_list_def str_nat_no_newline)

lemma split_ply_header:
  "split_header [] [] (ply_header n K @ body)
     = Some ([''ply'', ''format binary_little_endian 1.0'', vertex_line n]
             @ map property_line (property_list K), body)"
proof -
  let ?pre = "[''ply'', ''format binary_little_endian 1.0'', vertex_line n]
             @ map property_line (property_list K)"
  have ok: "\<forall>l\<in>set ?pre. CHR ''\<newline>'' \<notin> set l \<and> l \<noteq> ''end_header''"
    using property_list_no_newline [of _ K]
    by (auto simp: str_nat_no_newline property_line_def vertex_line_def)
  have "ply_header n K = concat (map (\<lambda>l. l @ ''\<newline>'') (?pre @ [''end_header'']))"
    unfolding ply_header_def header_lines_eq
    by (subst join_newline) simp_all
  then have "ply_header n K @ body
      = concat (map (\<lambda>l. l @ ''\<newline>'') ?pre) @ ''end_header'' @ CHR ''\<newline>'' # body"
    by simp
  then show ?thesis using split_header_lines [OF ok, of "[]" body] by simp
qed

lemma strip_prefix_append: "strip_prefix p (p @ s) = Some s"
  by (induction p) simp_all

lemma digit_val_digit_char: "d < 10 \<Longrightarrow> digit_val (digit_char d) = Some d"
  using digit_cases [of d] by (auto simp: digit_char_def digit_val_def)

lemma parse_digits_snoc:
  "parse_digits acc (s @ [c]) =
     (case parse_digits acc s of
        None \<Rightarrow> None
      | Some a \<Rightarrow> (case digit_val c of None \<Rightarrow> None | Some d \<Rightarrow> Some (10 * a + d)))"
  by (induction s arbitrary: acc) (simp_all split: option.splits)

lemma parse_digits_str_nat: "parse_digits 0 (str_nat n) = Some n"
proof (induction n rule: str_nat.induct)
  case (1 n)
  show ?case
  proof (cases "n < 10")
    case True
    then show ?thesis by (subst str_nat.simps) (simp add: digit_val_digit_char)
  next
    case False
    have "n mod 10 < 10" by simp
    then have "digit_val (digit_char (n mod 10)) = Some (n mod 10)"
      by (rule digit_val_digit_char)
    then show ?thesis
      using False 1 by (subst str_nat.simps) (simp add: parse_digits_snoc)
  qed
qed

lemma str_nat_nonempty: "str_nat n \<noteq> []"
  by (subst str_nat.simps) simp

lemma parse_nat_str_nat: "parse_nat (str_nat n) = Some n"
  by (simp add: parse_nat_def str_nat_nonempty parse_digits_str_nat)

lemma strip_property_line: "strip_prefix ''property float '' (property_line a) = Some a"
  unfolding property_line_def by (rule strip_prefix_append)

lemma strip_vertex_line: "strip_prefix ''element vertex '' (vertex_line n) = Some (str_nat n)"
  unfolding vertex_line_def by (rule strip_prefix_append)

lemma property_names_ok: "property_names (map property_line names) = Some names"
  by (induction names) (simp_all add: strip_property_line)

lemma parse_header_ok:
  "parse_header ([''ply'', ''format binary_little_endian 1.0'', vertex_line n]
                 @ map property_line names) = Some (n, names)"
  by (simp add: strip_vertex_line parse_nat_str_nat property_names_ok)

lemma chunks_concat:
  "\<forall>x\<in>set xss. length x = k \<Longrightarrow> chunks (length xss) k (concat xss) = xss"
  by (induction xss) simp_all

lemma length_concat_map_fixed:
  "\<forall>x\<in>set xs. length (f x) = k \<Longrightarrow> length (concat (map f xs)) = length xs * k"
  by (induction xs) simp_all

lemma ply_parse_ok:
  assumes pk: "\<And>x. length (pk x) = 4"
      and fl: "\<And>i. i < n \<Longrightarrow> length (flds i) = length (property_list K)"
  shows "ply_parse (ply_header n K @ concat (map (\<lambda>i. concat (map pk (flds i))) [0..<n]))
         = Some (n, property_list K, map (\<lambda>i. map pk (flds i)) [0..<n])"
proof -
  let ?P = "length (property_list K)"
  let ?recs = "map (\<lambda>i. concat (map pk (flds i))) [0..<n]"
  have rl: "\<forall>r\<in>set ?recs. length r = 4 * ?P"
  proof
    fix r assume "r \<in> set ?recs"
    then obtain i where i: "i < n" and r: "r = concat (map pk (flds i))" by auto
    have "length (concat (map pk (flds i))) = length (flds i) * 4"
      by (rule length_concat_map_fixed) (simp add: pk)
    then show "length r = 4 * ?P" using fl [OF i] r by simp
  qed
  have bl: "length (concat ?recs) = n * (4 * ?P)"
    using length_concat_map_fixed [of "?recs" "\<lambda>x. x" "4 * ?P"] rl by simp
  have c1: "chunks n (4 * ?P) (concat ?recs) = ?recs"
    using chunks_concat [OF rl] by simp
  have c2: "chunks ?P 4 (concat (map pk (flds i))) = map pk (flds i)" if "i < n" for i
    using chunks_concat [of "map pk (flds i)" 4] fl [OF that] by (simp add: pk)
  have "map (chunks ?P 4) ?recs = map (\<lambda>i. map pk (flds i)) [0..<n]"
    using c2 by simp
  then show ?thesis
    unfolding ply_parse_def split_ply_header
    using parse_header_ok [of n "property_list K"] bl c1 by simp
qed


lemma dc_terms_tiled:
  "length r = w \<Longrightarrow> 0 < w \<Longrightarrow> dc_terms w (r @ r @ r) = replicate 3 (r ! 0)"
  by (simp add: dc_terms_def upt_conv_Cons numeral_3_eq_3 nth_append)

lemma rest_terms_tiled:
  assumes "length r = w" "0 < w"
  shows "rest_terms w (r @ r @ r) = tl r @ tl r @ tl r"
proof -
  have l: "length (tl r) = w - 1" using assms by simp
  have d: "drop 1 r = tl r" by (simp add: drop_Suc)
  have a: "take (w - 1) (drop (0 * w + 1) (r @ r @ r)) = tl r"
    using assms l d by simp
  have b: "take (w - 1) (drop (1 * w + 1) (r @ r @ r)) = tl r"
    using assms l d by simp
  have c: "take (w - 1) (drop (2 * w + 1) (r @ r @ r)) = tl r"
    using assms l d by simp
  have u: "[0..<3::nat] = [0, 1, 2]" by (simp add: upt_rec)
  have "rest_terms w xs
        = take (w - 1) (drop (0 * w + 1) xs)
          @ take (w - 1) (drop (1 * w + 1) xs)
          @ take (w - 1) (drop (2 * w + 1) xs)" for xs :: "'a list"
    unfolding rest_terms_def u by simp
  from this [of "r @ r @ r"] show ?thesis by (simp only: a b c)
qed

text \<open>
  C1 (counterexample). On the canonical set with no point (arrays of shapes \<open>(0, 3)\<close>,
  \<open>(0, 1)\<close>, \<open>(0, 3)\<close>, \<open>(0, 4)\<close>, \<open>(0, 3)\<close>) the encoder writes no file:
  \<^verbatim>\<open>opacities.reshape(0, -1)\<close> raises \<^verbatim>\<open>ValueError\<close> before the file is opened. Nor
  does it on one point with an empty coefficient vector (group length 0), where
  \<^verbatim>\<open>sh_flat[:, :, 0]\<close> raises \<^verbatim>\<open>IndexError\<close>.
\<close>

theorem ply_encoder_empty_counterexample:
  "write_gaussian_ply pk_w32 (NDArray [0, 3] []) (NDArray [0, 1] []) (NDArray [0, 3] [])
     (NDArray [0, 4] []) (NDArray [0, 3] []) = Inl ValueError
   \<and> write_gaussian_ply pk_w32 (NDArray [1, 3] [1, 2, 3]) (NDArray [1, 1] [4])
     (NDArray [1, 3] [5, 6, 7]) (NDArray [1, 4] [1, 0, 0, 0]) (NDArray [1, 0] []) = Inl IndexError"
  by (simp add: write_gaussian_ply_def ndim_def nrows_def ncols_def prepare_opacities_def
      reshape_rows_auto_def asize_def prepare_sh_def split_sh_def reshape3_def
      first_of_each_channel_def)

text \<open>
  C1 (amended). For every canonical Gaussian set of \<open>N \<ge> 1\<close> points with group
  length \<open>K \<ge> 1\<close> (positions \<open>N \<times> 3\<close>, \<open>N\<close> opacities, scales \<open>N \<times> 3\<close>, rotations
  \<open>N \<times> 4\<close>, coefficients \<open>N \<times> 3K\<close>) and every encoding of a float in four bytes, the
  encoder succeeds; the file is the header followed by the \<open>N\<close> records and nothing
  else, record \<open>i\<close> being the \<open>17 + 3 (K - 1)\<close> fields of point \<open>i\<close> of four bytes
  each; and reading the file back gives the vertex count \<open>N\<close>, the \<open>17 + 3 (K - 1)\<close>
  property names of the header, and exactly these records.
\<close>

theorem ply_encoder_roundtrip:
  assumes "1 \<le> N" and "1 \<le> K"
      and "shape means = [N, 3]" and "wf_ndarray means"
      and "asize opacities = N" and "wf_ndarray opacities"
      and "shape scales = [N, 3]" and "wf_ndarray scales"
      and "shape quats = [N, 4]" and "wf_ndarray quats"
      and "shape sh = [N, 3 * K]" and "wf_ndarray sh"
      and "\<And>x. length (pk x) = 4"
  shows "\<exists>file recs.
           write_gaussian_ply pk means opacities scales quats sh = Inr file
         \<and> recs = map (\<lambda>i. map pk (point_fields means sh K opacities scales quats i)) [0..<N]
         \<and> file = ply_header N K @ concat (map concat recs)
         \<and> length recs = N
         \<and> list_all (\<lambda>r. length r = 17 + 3 * (K - 1) \<and> list_all (\<lambda>f. length f = 4) r) recs
         \<and> length file = length (ply_header N K) + N * (4 * (17 + 3 * (K - 1)))
         \<and> length (property_list K) = 17 + 3 * (K - 1)
         \<and> ply_parse file = Some (N, property_list K, recs)"
proof -
  let ?fields = "point_fields means sh K opacities scales quats"
  let ?recs = "map (\<lambda>i. map pk (?fields i)) [0..<N]"
  let ?file = "ply_header N K @ concat (map (\<lambda>i. concat (map pk (?fields i))) [0..<N])"
  have lens: "length (data means) = N * 3" "length (data scales) = N * 3"
    "length (data quats) = N * 4" "length (data sh) = N * (3 * K)"
    using assms by (simp_all add: wf_ndarray_def asize_def)
  have N: "0 < N" and K: "0 < K" using assms by simp_all
  have prep: "prepare_sh N sh = Inr (sh, K)"
    using assms by (simp add: prepare_sh_divisible)
  have w: "write_gaussian_ply pk means opacities scales quats sh = Inr ?file"
    using encoder_core [OF \<open>shape means = [N, 3]\<close> lens(1) \<open>shape scales = [N, 3]\<close> lens(2)
        \<open>shape quats = [N, 4]\<close> lens(3) \<open>asize opacities = N\<close> prep \<open>shape sh = [N, 3 * K]\<close>
        lens(4) K N] .
  have fl: "length (?fields i) = 17 + 3 * (K - 1)" if "i < N" for i
    using length_row [OF \<open>shape means = [N, 3]\<close> lens(1) that]
      length_row [OF \<open>shape scales = [N, 3]\<close> lens(2) that]
      length_row [OF \<open>shape quats = [N, 4]\<close> lens(3) that]
      length_row [OF \<open>shape sh = [N, 3 * K]\<close> lens(4) that]
    by (simp add: point_fields_def length_rest_terms)
  have p: "ply_parse ?file = Some (N, property_list K, ?recs)"
    by (rule ply_parse_ok) (simp_all add: assms(13) fl length_property_list)
  have cc: "concat (map concat ?recs) = concat (map (\<lambda>i. concat (map pk (?fields i))) [0..<N])"
    by (simp add: comp_def)
  have la: "list_all (\<lambda>r. length r = 17 + 3 * (K - 1) \<and> list_all (\<lambda>f. length f = 4) r) ?recs"
    by (simp add: list_all_iff fl assms(13))
  have "length (concat (map (\<lambda>i. concat (map pk (?fields i))) [0..<N]))
          = N * (4 * (17 + 3 * (K - 1)))"
  proof -
    have "length (concat (map pk (?fields i))) = 4 * (17 + 3 * (K - 1))" if "i < N" for i
      using length_concat_map_fixed [of "?fields i" pk 4] fl [OF that] by (simp add: assms(13))
    then show ?thesis by (rule length_concat_rows)
  qed
  then have lf: "length ?file = length (ply_header N K) + N * (4 * (17 + 3 * (K - 1)))"
    by simp
  show ?thesis
    using w cc la lf p length_property_list [of K] by (intro exI [of _ ?file] exI [of _ ?recs]) simp
qed


text \<open>Two points with two coefficients per channel.\<close>

theorem ply_encoder_roundtrip_witness:
  "\<exists>file recs.
      write_gaussian_ply pk_w32
        (NDArray [2, 3] [1, 2, 3, 4, 5, 6]) (NDArray [2] [65, 66])
        (NDArray [2, 3] [7, 8, 9, 10, 11, 12]) (NDArray [2, 4] [1, 0, 0, 0, 1, 0, 0, 0])
        (NDArray [2, 3 * 2] [48, 49, 50, 51, 52, 53, 64, 65, 66, 67, 68, 69]) = Inr file
    \<and> recs = map (\<lambda>i. map pk_w32 (point_fields
        (NDArray [2, 3] [1, 2, 3, 4, 5, 6])
        (NDArray [2, 3 * 2] [48, 49, 50, 51, 52, 53, 64, 65, 66, 67, 68, 69]) 2
        (NDArray [2] [65, 66])
        (NDArray [2, 3] [7, 8, 9, 10, 11, 12]) (NDArray [2, 4] [1, 0, 0, 0, 1, 0, 0, 0]) i)) [0..<2]
    \<and> file = ply_header 2 2 @ concat (map concat recs)
    \<and> length recs = 2
    \<and> list_all (\<lambda>r. length r = 17 + 3 * (2 - 1) \<and> list_all (\<lambda>f. length f = 4) r) recs
    \<and> length file = length (ply_header 2 2) + 2 * (4 * (17 + 3 * (2 - 1)))
    \<and> length (property_list 2) = 17 + 3 * (2 - 1)
    \<and> ply_parse file = Some (2, property_list 2, recs)"
  by (rule ply_encoder_roundtrip) (simp_all add: wf_ndarray_def asize_def pk_w32_def)

text \<open>
  C3. For every coefficient array of \<open>N \<ge> 1\<close> rows whose width \<open>w\<close> is not divisible
  by 3 (the other arrays being canonical), the encoder succeeds and gives each of the
  three channels a copy of the point's vector: the group length is \<open>w\<close>, and in every
  record the three \<^verbatim>\<open>f_dc\<close> fields all hold the first coefficient of the point (the
  whole vector when \<open>w = 1\<close>), followed by its remaining coefficients three times over.
\<close>

theorem sh_width_not_divisible_replicated:
  assumes "1 \<le> N"
      and "shape means = [N, 3]" and "wf_ndarray means"
      and "asize opacities = N" and "wf_ndarray opacities"
      and "shape scales = [N, 3]" and "wf_ndarray scales"
      and "shape quats = [N, 4]" and "wf_ndarray quats"
      and "shape sh = [N, w]" and "w mod 3 \<noteq> 0" and "wf_ndarray sh"
      and "\<And>x. length (pk x) = 4"
  shows "\<exists>file recs.
           write_gaussian_ply pk means opacities scales quats sh = Inr file
         \<and> ply_parse file = Some (N, property_list w, recs)
         \<and> recs = map (\<lambda>i. map pk
               (row means i @ replicate 3 0
                @ replicate 3 (row sh i ! 0)
                @ (tl (row sh i) @ tl (row sh i) @ tl (row sh i))
                @ [data opacities ! i] @ row scales i @ row quats i)) [0..<N]
         \<and> (\<forall>i<N. take 3 (drop 6 (recs ! i)) = replicate 3 (pk (row sh i ! 0)))"
proof -
  let ?sh = "tile3 sh"
  let ?fields = "point_fields means ?sh w opacities scales quats"
  let ?explicit = "\<lambda>i. row means i @ replicate 3 0
                @ replicate 3 (row sh i ! 0)
                @ (tl (row sh i) @ tl (row sh i) @ tl (row sh i))
                @ [data opacities ! i] @ row scales i @ row quats i"
  let ?recs = "map (\<lambda>i. map pk (?fields i)) [0..<N]"
  let ?file = "ply_header N w @ concat (map (\<lambda>i. concat (map pk (?fields i))) [0..<N])"
  have N: "0 < N" and w: "0 < w" using assms by auto
  have lens: "length (data means) = N * 3" "length (data scales) = N * 3"
    "length (data quats) = N * 4" "length (data sh) = N * w"
    using assms by (simp_all add: wf_ndarray_def asize_def)
  have prep: "prepare_sh N sh = Inr (?sh, w)"
    using assms N by (simp add: prepare_sh_tiled)
  have tsh: "shape ?sh = [N, 3 * w]" using assms by (simp add: tile3_shape)
  have tlen: "length (data ?sh) = N * (3 * w)"
    using tile3_length [OF \<open>shape sh = [N, w]\<close> lens(4)] .
  have wr: "write_gaussian_ply pk means opacities scales quats sh = Inr ?file"
    using encoder_core [OF \<open>shape means = [N, 3]\<close> lens(1) \<open>shape scales = [N, 3]\<close> lens(2)
        \<open>shape quats = [N, 4]\<close> lens(3) \<open>asize opacities = N\<close> prep tsh tlen w N] .
  have ex: "?fields i = ?explicit i" if "i < N" for i
  proof -
    have lr: "length (row sh i) = w"
      using length_row [OF \<open>shape sh = [N, w]\<close> lens(4) that] .
    have tr: "row ?sh i = row sh i @ row sh i @ row sh i"
      using tile3_row [OF \<open>shape sh = [N, w]\<close> lens(4) that] .
    show ?thesis
      unfolding point_fields_def tr dc_terms_tiled [OF lr w] rest_terms_tiled [OF lr w] by simp
  qed
  have fl: "length (?fields i) = length (property_list w)" if "i < N" for i
    using length_row [OF \<open>shape means = [N, 3]\<close> lens(1) that]
      length_row [OF \<open>shape scales = [N, 3]\<close> lens(2) that]
      length_row [OF \<open>shape quats = [N, 4]\<close> lens(3) that]
      length_row [OF tsh tlen that]
    by (simp add: point_fields_def length_rest_terms length_property_list)
  have p: "ply_parse ?file = Some (N, property_list w, ?recs)"
    by (rule ply_parse_ok) (simp_all add: assms(13) fl)
  have re: "?recs = map (\<lambda>i. map pk (?explicit i)) [0..<N]"
    using ex by simp
  have dc: "take 3 (drop 6 (map (\<lambda>i. map pk (?explicit i)) [0..<N] ! i))
            = replicate 3 (pk (row sh i ! 0))" if "i < N" for i
    using that length_row [OF \<open>shape means = [N, 3]\<close> lens(1) that]
    by (simp add: drop_map take_map)
  show ?thesis
    using wr p re dc
    by (intro exI [of _ ?file] exI [of _ "map (\<lambda>i. map pk (?explicit i)) [0..<N]"]) simp
qed

text \<open>Two points with two coefficients each.\<close>

theorem sh_width_not_divisible_replicated_witness:
  "\<exists>file recs.
      write_gaussian_ply pk_w32
        (NDArray [2, 3] [1, 2, 3, 4, 5, 6]) (NDArray [2] [65, 66])
        (NDArray [2, 3] [7, 8, 9, 10, 11, 12]) (NDArray [2, 4] [1, 0, 0, 0, 1, 0, 0, 0])
        (NDArray [2, 2] [48, 49, 64, 65]) = Inr file
    \<and> ply_parse file = Some (2, property_list 2, recs)
    \<and> recs = map (\<lambda>i. map pk_w32
               (row (NDArray [2, 3] [1, 2, 3, 4, 5, 6]) i @ replicate 3 0
                @ replicate 3 (row (NDArray [2, 2] [48, 49, 64, 65]) i ! 0)
                @ (tl (row (NDArray [2, 2] [48, 49, 64, 65]) i)
                   @ tl (row (NDArray [2, 2] [48, 49, 64, 65]) i)
                   @ tl (row (NDArray [2, 2] [48, 49, 64, 65]) i))
                @ [data (NDArray [2] [65, 66]) ! i]
                @ row (NDArray [2, 3] [7, 8, 9, 10, 11, 12]) i
                @ row (NDArray [2, 4] [1, 0, 0, 0, 1, 0, 0, 0]) i)) [0..<2]
    \<and> (\<forall>i<2. take 3 (drop 6 (recs ! i))
                 = replicate 3 (pk_w32 (row (NDArray [2, 2] [48, 49, 64, 65]) i ! 0)))"
  by (rule sh_width_not_divisible_replicated) (simp_all add: wf_ndarray_def asize_def pk_w32_def)

section \<open>The colours of the response\<close>

text \<open>
  The columns the specification names for the colours, \<open>coeff[:, {0, K, 2K}]\<close> with
  \<open>K = width / 3\<close>, for comparison with what \<^verbatim>\<open>reconstruct\<close> takes
  (\<^verbatim>\<open>sh_np[:, :3]\<close>) and with the encoder's \<^verbatim>\<open>f_dc\<close>.
\<close>

definition claimed_dc_columns :: "'a ndarray \<Rightarrow> 'a ndarray" where
  "claimed_dc_columns coeff =
     (let K = ncols coeff div 3
      in from_rows (nrows coeff) 3
           (\<lambda>i. [row coeff i ! 0, row coeff i ! K, row coeff i ! (2 * K)]))"

text \<open>
  C2 (the code at a failing input). One point with coefficients \<open>[0, 1, 0, 0, 0, 0]\<close>,
  so \<open>K = 2\<close> and the three groups are \<open>[0, 1]\<close>, \<open>[0, 0]\<close>, \<open>[0, 0]\<close>. The response
  colour is computed from columns 0, 1, 2, that is from \<open>(0, 1, 0)\<close>, and is
  \<open>(0.5, 0.78209479177387814, 0.5)\<close>. The claimed columns 0, 2, 4 hold \<open>(0, 0, 0)\<close>, as
  does the \<^verbatim>\<open>f_dc\<close> the encoder writes for the same array, and give \<open>(0.5, 0.5, 0.5)\<close>.
\<close>

theorem response_colors_take_first_three_columns:
  "map_sum id colors_rgb
     (extract_gaussians (PDict [''pts3d'' \<mapsto> Some (NDArray [1, 3] [0, 0, 0]),
                                ''sh'' \<mapsto> Some (NDArray [1, 6] [0, 1, 0, 0, 0, 0])]))
     = Inr (NDArray [1, 3] [0.5, 0.78209479177387814, 0.5])
   \<and> sh_dc_to_rgb (claimed_dc_columns (NDArray [1, 6] [0, 1, 0, 0, 0, 0]))
     = NDArray [1, 3] [0.5, 0.5, 0.5]
   \<and> map_sum id (sh_dc_to_rgb \<circ> fst) (split_sh 1 (NDArray [1, 6] [0, 1, 0, 0, 0, 0]) 2)
     = Inr (NDArray [1, 3] [0.5, 0.5, 0.5])"
  by (simp add: extract_gaussians_def extract_try_def pts3d_keys_def conf_keys_def
      scales_keys_def quats_keys_def sh_keys_def reshape_auto_cols_def reshape_rows_auto_def
      asize_def nrows_def ncols_def full_def tile_rows_def from_rows_def take_cols_def
      sh_dc_to_rgb_def clip_def SH_C0_def claimed_dc_columns_def split_sh_def reshape3_def
      first_of_each_channel_def rest_of_each_channel_def block_def upt_rec)

section \<open>The response assembler\<close>

text \<open>
  Step 8 of \<^verbatim>\<open>reconstruct\<close>. What the step reads from its surroundings is a record:
  the clock, the fresh UUIDs, and the state of numpy's global generator, which the
  step never consults. The generator library is a parameter: \<open>default_rng seed\<close> is
  \<^verbatim>\<open>np.random.default_rng(seed)\<close> and \<open>choice gen n k\<close> is
  \<^verbatim>\<open>gen.choice(n, k, replace=False)\<close>, a list of \<open>k\<close> indices. That the sample is
  uniform is a property of the distribution of the library's generator and is not
  expressed here.
\<close>

definition MAX_POINTS_IN_RESPONSE :: nat where
  "MAX_POINTS_IN_RESPONSE = 50000"

text \<open>\<^verbatim>\<open>a[indices].tolist()\<close>: an index past the last row is an \<^verbatim>\<open>IndexError\<close>.\<close>

definition take_rows :: "'a ndarray \<Rightarrow> nat list \<Rightarrow> error + 'a list list" where
  "take_rows a indices =
     (if list_all (\<lambda>i. i < nrows a) indices then Inr (map (row a) indices) else Inl IndexError)"

text \<open>
  \<^verbatim>\<open>a.min(axis=0)\<close>, \<^verbatim>\<open>a.max(axis=0)\<close> and \<^verbatim>\<open>a.mean(axis=0)\<close>, as lists. The first
  two raise \<^verbatim>\<open>ValueError\<close> on an array without rows.
\<close>

definition column :: "'a ndarray \<Rightarrow> nat \<Rightarrow> 'a list" where
  "column a j = map (\<lambda>i. row a i ! j) [0..<nrows a]"

definition axis0_min :: "real ndarray \<Rightarrow> error + real list" where
  "axis0_min a =
     (if nrows a = 0 then Inl ValueError
      else Inr (map (\<lambda>j. fold min (tl (column a j)) (hd (column a j))) [0..<ncols a]))"

definition axis0_max :: "real ndarray \<Rightarrow> error + real list" where
  "axis0_max a =
     (if nrows a = 0 then Inl ValueError
      else Inr (map (\<lambda>j. fold max (tl (column a j)) (hd (column a j))) [0..<ncols a]))"

definition axis0_mean :: "real ndarray \<Rightarrow> real list" where
  "axis0_mean a = map (\<lambda>j. sum_list (column a j) / real (nrows a)) [0..<ncols a]"

record 'g env =
  np_global_rng :: 'g
  start_ms :: int
  now_ms :: int
  uuid_ply :: string
  uuid_object :: string
  uuid_action :: string

text \<open>
  The fields of the response that are computed; the constant fields of the JSON object
  are left out.
\<close>

record response =
  action_id :: string
  object_id :: string
  pose_position :: "real list"
  bbox_min :: "real list"
  bbox_max :: "real list"
  pc_positions :: "real list list"
  pc_colors :: "real list list"
  pc_count :: nat
  gaussian_asset_key :: "string option"
  input_images :: nat
  point_count :: nat
  processing_time_ms :: int
  input_type :: string

definition assemble_response ::
  "(nat \<Rightarrow> 'g) \<Rightarrow> ('g \<Rightarrow> nat \<Rightarrow> nat \<Rightarrow> nat list) \<Rightarrow> 'g env \<Rightarrow> gaussians \<Rightarrow> string option \<Rightarrow>
   nat \<Rightarrow> bool \<Rightarrow> error + response" where
  "assemble_response default_rng choice e g asset_key n_images use_video =
     (let elapsed_ms = now_ms e - start_ms e in
      ebind (axis0_min (pts3d_np g)) (\<lambda>bmin.
      ebind (axis0_max (pts3d_np g)) (\<lambda>bmax.
        let centroid = axis0_mean (pts3d_np g) in
        ebind (if n_points g > MAX_POINTS_IN_RESPONSE
               then let indices = choice (default_rng 42) (n_points g) MAX_POINTS_IN_RESPONSE
                    in ebind (take_rows (pts3d_np g) indices) (\<lambda>positions.
                       ebind (take_rows (colors_rgb g) indices) (\<lambda>colors.
                         Inr (positions, colors, MAX_POINTS_IN_RESPONSE)))
               else Inr (tolist (pts3d_np g), tolist (colors_rgb g), n_points g))
          (\<lambda>(positions, colors, count).
             Inr \<lparr>action_id = uuid_action e, object_id = uuid_object e,
                  pose_position = centroid, bbox_min = bmin, bbox_max = bmax,
                  pc_positions = positions, pc_colors = colors, pc_count = count,
                  gaussian_asset_key = asset_key, input_images = n_images,
                  point_count = n_points g, processing_time_ms = elapsed_ms,
                  input_type = (if use_video then ''video'' else ''images'')\<rparr>))))"


lemma extract_shapes:
  assumes "extract_gaussians p = Inr g"
  shows "shape (pts3d_np g) = [n_points g, 3] \<and> nrows (colors_rgb g) = n_points g"
proof -
  from assms have t: "extract_try p = Inr g"
    by (simp add: extract_gaussians_def split: sum.splits)
  then obtain t0 where p0: "extract_tensor p pts3d_keys = Some t0"
    by (auto simp: extract_try_def Let_def split: option.splits)
  from t p0 obtain pts where pts: "reshape_auto_cols 3 t0 = Inr pts"
    by (cases "reshape_auto_cols 3 t0") (auto simp: extract_try_def Let_def)
  then have sp: "shape pts = [nrows pts, 3]"
    by (auto simp: reshape_auto_cols_def nrows_def split: if_splits)
  from t p0 pts obtain sh where
    g: "pts3d_np g = pts" "n_points g = nrows pts"
       "colors_rgb g = sh_dc_to_rgb (if ncols sh \<ge> 3 then take_cols 3 sh
                              else tile3 (take_cols 1 sh))"
    and sh: "(case extract_tensor p sh_keys of
                        Some s \<Rightarrow> reshape_rows_auto (nrows pts) s
                      | None \<Rightarrow> Inr (full (nrows pts) 3 0)) = Inr sh"
    by (auto simp: extract_try_def Let_def ebind_def split: sum.splits)
  have "nrows sh = nrows pts"
    using sh by (auto simp: reshape_rows_auto_def split: option.splits if_splits)
  then show ?thesis using g sp by simp
qed


lemma length_tolist [simp]: "length (tolist a) = nrows a"
  by (simp add: tolist_def)

lemma axis0_ok:
  "0 < nrows a \<Longrightarrow> \<exists>lo hi. axis0_min a = Inr lo \<and> axis0_max a = Inr hi"
  by (simp add: axis0_min_def axis0_max_def)

lemma assemble_small:
  assumes "0 < nrows (pts3d_np g)" and "n_points g \<le> MAX_POINTS_IN_RESPONSE"
  shows "\<exists>r. assemble_response default_rng choice e g key m v = Inr r
           \<and> point_count r = n_points g
           \<and> pc_count r = n_points g
           \<and> pc_positions r = tolist (pts3d_np g)
           \<and> pc_colors r = tolist (colors_rgb g)"
proof -
  obtain lo hi where "axis0_min (pts3d_np g) = Inr lo" "axis0_max (pts3d_np g) = Inr hi"
    using axis0_ok [OF assms(1)] by blast
  then show ?thesis using assms(2) by (simp add: assemble_response_def Let_def)
qed

lemma assemble_large:
  assumes "0 < nrows (pts3d_np g)" and "MAX_POINTS_IN_RESPONSE < n_points g"
      and "list_all (\<lambda>i. i < nrows (pts3d_np g))
             (choice (default_rng 42) (n_points g) MAX_POINTS_IN_RESPONSE)"
      and "list_all (\<lambda>i. i < nrows (colors_rgb g))
             (choice (default_rng 42) (n_points g) MAX_POINTS_IN_RESPONSE)"
  shows "\<exists>r. assemble_response default_rng choice e g key m v = Inr r
           \<and> point_count r = n_points g
           \<and> pc_count r = MAX_POINTS_IN_RESPONSE
           \<and> pc_positions r = map (row (pts3d_np g))
                (choice (default_rng 42) (n_points g) MAX_POINTS_IN_RESPONSE)
           \<and> pc_colors r = map (row (colors_rgb g))
                (choice (default_rng 42) (n_points g) MAX_POINTS_IN_RESPONSE)"
proof -
  obtain lo hi where "axis0_min (pts3d_np g) = Inr lo" "axis0_max (pts3d_np g) = Inr hi"
    using axis0_ok [OF assms(1)] by blast
  then show ?thesis
    using assms(2,3,4) by (simp add: assemble_response_def Let_def take_rows_def)
qed

lemma assemble_Inr:
  assumes "assemble_response default_rng choice e g key m v = Inr r"
  shows "(n_points g \<le> MAX_POINTS_IN_RESPONSE
            \<and> pc_positions r = tolist (pts3d_np g) \<and> pc_colors r = tolist (colors_rgb g))
         \<or> (MAX_POINTS_IN_RESPONSE < n_points g
            \<and> list_all (\<lambda>i. i < nrows (pts3d_np g))
                 (choice (default_rng 42) (n_points g) MAX_POINTS_IN_RESPONSE)
            \<and> pc_positions r = map (row (pts3d_np g))
                 (choice (default_rng 42) (n_points g) MAX_POINTS_IN_RESPONSE)
            \<and> pc_colors r = map (row (colors_rgb g))
                 (choice (default_rng 42) (n_points g) MAX_POINTS_IN_RESPONSE))"
proof -
  from assms obtain lo hi where b: "axis0_min (pts3d_np g) = Inr lo" "axis0_max (pts3d_np g) = Inr hi"
    by (cases "axis0_min (pts3d_np g)"; cases "axis0_max (pts3d_np g)")
       (auto simp: assemble_response_def Let_def)
  show ?thesis
  proof (cases "MAX_POINTS_IN_RESPONSE < n_points g")
    case False
    then show ?thesis using assms b by (auto simp: assemble_response_def Let_def)
  next
    case True
    then show ?thesis
      using assms b
      by (auto simp: assemble_response_def Let_def take_rows_def ebind_def split: if_splits)
  qed
qed

text \<open>A result with positions only, of any size divisible by three, is extracted.\<close>

lemma extract_positions_only:
  assumes "asize t = 3 * N"
  shows "\<exists>g. extract_gaussians (PDict [''pts3d'' \<mapsto> Some t]) = Inr g \<and> n_points g = N"
proof -
  let ?p = "PDict [''pts3d'' \<mapsto> Some t]"
  have h1: "extract_tensor ?p pts3d_keys = Some t" by (simp add: pts3d_keys_def)
  have n1: "extract_tensor ?p conf_keys = None" by (simp add: conf_keys_def)
  have n2: "extract_tensor ?p scales_keys = None" by (simp add: scales_keys_def)
  have n3: "extract_tensor ?p quats_keys = None" by (simp add: quats_keys_def)
  have n4: "extract_tensor ?p sh_keys = None" by (simp add: sh_keys_def)
  have f: "fits_auto N (extract_tensor ?p conf_keys)" "fits N 3 (extract_tensor ?p scales_keys)"
    "fits N 4 (extract_tensor ?p quats_keys)" "fits_auto N (extract_tensor ?p sh_keys)"
    unfolding n1 n2 n3 n4 by simp_all
  from extract_try_ok [OF h1 assms f] show ?thesis
    using extract_gaussians_ok by blast
qed

text \<open>
  C8. For every reconstruction with \<open>N \<ge> 1\<close> points (the arrays being those the
  extraction produced), and a generator whose \<^verbatim>\<open>choice(N, 50000, replace=False)\<close> is a
  list of 50000 distinct indices below \<open>N\<close>, the response exists and reports
  \<open>point_count = N\<close>. When \<open>N > 50000\<close> its point cloud has \<open>count = 50000\<close> and
  exactly 50000 positions and 50000 colours, the rows at the 50000 distinct sampled
  indices; otherwise it has \<open>count = N\<close> and all \<open>N\<close> positions and colours.
\<close>

theorem response_point_cloud_capped:
  assumes "extract_gaussians p = Inr g" and "n_points g = N" and "1 \<le> N"
      and "50000 < N \<longrightarrow>
             length (choice (default_rng 42) N 50000) = 50000
           \<and> distinct (choice (default_rng 42) N 50000)
           \<and> list_all (\<lambda>i. i < N) (choice (default_rng 42) N 50000)"
  shows "\<exists>r. assemble_response default_rng choice e g key m v = Inr r
           \<and> point_count r = N
           \<and> (if 50000 < N
               then pc_count r = 50000
                  \<and> length (pc_positions r) = 50000 \<and> length (pc_colors r) = 50000
                  \<and> distinct (choice (default_rng 42) N 50000)
                  \<and> pc_positions r = map (row (pts3d_np g)) (choice (default_rng 42) N 50000)
                  \<and> pc_colors r = map (row (colors_rgb g)) (choice (default_rng 42) N 50000)
               else pc_count r = N
                  \<and> length (pc_positions r) = N \<and> length (pc_colors r) = N
                  \<and> pc_positions r = tolist (pts3d_np g)
                  \<and> pc_colors r = tolist (colors_rgb g))"
proof -
  have sh: "nrows (pts3d_np g) = N" "nrows (colors_rgb g) = N"
    using extract_shapes [OF assms(1)] assms(2) by (simp_all add: nrows_def)
  have pos: "0 < nrows (pts3d_np g)" using sh assms(3) by simp
  show ?thesis
  proof (cases "50000 < N")
    case True
    then have big: "MAX_POINTS_IN_RESPONSE < n_points g"
      by (simp add: MAX_POINTS_IN_RESPONSE_def assms(2))
    have idx: "length (choice (default_rng 42) N 50000) = 50000"
      "distinct (choice (default_rng 42) N 50000)"
      "list_all (\<lambda>i. i < N) (choice (default_rng 42) N 50000)"
      using assms(4) True by simp_all
    have "list_all (\<lambda>i. i < nrows (pts3d_np g))
             (choice (default_rng 42) (n_points g) MAX_POINTS_IN_RESPONSE)"
      "list_all (\<lambda>i. i < nrows (colors_rgb g))
             (choice (default_rng 42) (n_points g) MAX_POINTS_IN_RESPONSE)"
      using idx(3) by (simp_all add: sh assms(2) MAX_POINTS_IN_RESPONSE_def)
    from assemble_large [where g = g and choice = choice and default_rng = default_rng
        and e = e and key = key and m = m and v = v, OF pos big this]
    show ?thesis using True idx by (auto simp: MAX_POINTS_IN_RESPONSE_def assms(2))
  next
    case False
    then have small: "n_points g \<le> MAX_POINTS_IN_RESPONSE"
      by (simp add: MAX_POINTS_IN_RESPONSE_def assms(2))
    from assemble_small [OF pos small, of default_rng choice e key m v]
    show ?thesis using False sh by (auto simp: assms(2))
  qed
qed

text \<open>The scenario of 60000 points: \<open>count = 50000\<close>, \<open>point_count = 60000\<close>.\<close>

theorem response_point_cloud_capped_witness:
  "\<exists>g. extract_gaussians (PDict [''pts3d'' \<mapsto> Some (full 60000 3 0)]) = Inr g
      \<and> n_points g = 60000
      \<and> (1::nat) \<le> 60000
      \<and> length ((\<lambda>gen n k. [0..<k]) ((\<lambda>seed. seed) (42::nat)) (60000::nat) (50000::nat)) = 50000
      \<and> distinct ((\<lambda>gen n k. [0..<k]) ((\<lambda>seed. seed) (42::nat)) (60000::nat) (50000::nat))
      \<and> list_all (\<lambda>i. i < 60000)
           ((\<lambda>gen n k. [0..<k]) ((\<lambda>seed. seed) (42::nat)) (60000::nat) (50000::nat))
      \<and> (\<exists>r. assemble_response (\<lambda>seed. seed) (\<lambda>gen n k. [0..<k])
                 \<lparr>np_global_rng = 7, start_ms = 100, now_ms = 250, uuid_ply = ''p'',
                  uuid_object = ''o'', uuid_action = ''a''\<rparr> g None 3 False = Inr r
             \<and> point_count r = 60000 \<and> pc_count r = 50000
             \<and> length (pc_positions r) = 50000 \<and> length (pc_colors r) = 50000)"
proof -
  obtain g where g: "extract_gaussians (PDict [''pts3d'' \<mapsto> Some (full 60000 3 (0::real))]) = Inr g"
      and n: "n_points g = 60000"
    using extract_positions_only [of "full 60000 3 (0::real)" 60000]
    by (auto simp: asize_def full_def)
  have le: "(1::nat) \<le> 60000" by simp
  have c: "length ((\<lambda>gen n k. [0..<k]) ((\<lambda>seed. seed) (42::nat)) (60000::nat) (50000::nat)) = 50000"
    "distinct ((\<lambda>gen n k. [0..<k]) ((\<lambda>seed. seed) (42::nat)) (60000::nat) (50000::nat))"
    "list_all (\<lambda>i. i < 60000)
           ((\<lambda>gen n k. [0..<k]) ((\<lambda>seed. seed) (42::nat)) (60000::nat) (50000::nat))"
    by (simp_all add: list_all_iff)
  have "\<exists>r. assemble_response (\<lambda>seed. seed) (\<lambda>gen n k. [0..<k])
                 \<lparr>np_global_rng = 7::nat, start_ms = 100, now_ms = 250, uuid_ply = ''p'',
                  uuid_object = ''o'', uuid_action = ''a''\<rparr> g None 3 False = Inr r
             \<and> point_count r = 60000 \<and> pc_count r = 50000
             \<and> length (pc_positions r) = 50000 \<and> length (pc_colors r) = 50000"
    using response_point_cloud_capped [where p = "PDict [''pts3d'' \<mapsto> Some (full 60000 3 0)]"
        and g = g and N = 60000 and choice = "\<lambda>gen n k. [0..<k]" and default_rng = "\<lambda>seed. seed"
        and e = "\<lparr>np_global_rng = 7::nat, start_ms = 100, now_ms = 250, uuid_ply = ''p'',
                  uuid_object = ''o'', uuid_action = ''a''\<rparr>"
        and key = None and m = 3 and v = False, OF g n le]
      c by auto
  then show ?thesis using g n le c by (intro exI [of _ g]) blast
qed

text \<open>
  C9. Two invocations on reconstructions with the same number \<open>N > 50000\<close> of points,
  whatever their surroundings (clock, UUIDs, state of the global generator), their
  points and their other arguments, both answer, and both select the rows at the same
  indices, namely \<^verbatim>\<open>default_rng(42).choice(N, 50000, replace=False)\<close>, which depends
  on \<open>N\<close> and the cap alone. On the same arrays the two point clouds are equal.
\<close>

theorem downsampling_deterministic:
  assumes "extract_gaussians p1 = Inr g1" and "extract_gaussians p2 = Inr g2"
      and "n_points g1 = N" and "n_points g2 = N" and "50000 < N"
      and "list_all (\<lambda>i. i < N) (choice (default_rng 42) N 50000)"
  shows "\<exists>r1 r2.
           assemble_response default_rng choice e1 g1 key1 m1 v1 = Inr r1
         \<and> assemble_response default_rng choice e2 g2 key2 m2 v2 = Inr r2
         \<and> pc_positions r1 = map (row (pts3d_np g1)) (choice (default_rng 42) N 50000)
         \<and> pc_positions r2 = map (row (pts3d_np g2)) (choice (default_rng 42) N 50000)
         \<and> pc_colors r1 = map (row (colors_rgb g1)) (choice (default_rng 42) N 50000)
         \<and> pc_colors r2 = map (row (colors_rgb g2)) (choice (default_rng 42) N 50000)
         \<and> (g1 = g2 \<longrightarrow> pc_positions r1 = pc_positions r2 \<and> pc_colors r1 = pc_colors r2)"
proof -
  have big: "MAX_POINTS_IN_RESPONSE < n_points g" if "n_points g = N" for g :: gaussians
    using that assms(5) by (simp add: MAX_POINTS_IN_RESPONSE_def)
  have run: "\<exists>r. assemble_response default_rng choice e g key m v = Inr r
           \<and> pc_positions r = map (row (pts3d_np g)) (choice (default_rng 42) N 50000)
           \<and> pc_colors r = map (row (colors_rgb g)) (choice (default_rng 42) N 50000)"
    if ex: "extract_gaussians p = Inr g" and n: "n_points g = N" for p g e key m v
  proof -
    have sh: "nrows (pts3d_np g) = N" "nrows (colors_rgb g) = N"
      using extract_shapes [OF ex] n by (simp_all add: nrows_def)
    have pos: "0 < nrows (pts3d_np g)" using sh assms(5) by simp
    have "list_all (\<lambda>i. i < nrows (pts3d_np g))
             (choice (default_rng 42) (n_points g) MAX_POINTS_IN_RESPONSE)"
      "list_all (\<lambda>i. i < nrows (colors_rgb g))
             (choice (default_rng 42) (n_points g) MAX_POINTS_IN_RESPONSE)"
      using assms(6) by (simp_all add: sh n MAX_POINTS_IN_RESPONSE_def)
    from assemble_large [where g = g and choice = choice and default_rng = default_rng
        and e = e and key = key and m = m and v = v, OF pos big [OF n] this]
    show ?thesis by (auto simp: MAX_POINTS_IN_RESPONSE_def n)
  qed
  obtain r1 where r1: "assemble_response default_rng choice e1 g1 key1 m1 v1 = Inr r1"
      "pc_positions r1 = map (row (pts3d_np g1)) (choice (default_rng 42) N 50000)"
      "pc_colors r1 = map (row (colors_rgb g1)) (choice (default_rng 42) N 50000)"
    using run [OF assms(1,3), of e1 key1 m1 v1] by blast
  obtain r2 where r2: "assemble_response default_rng choice e2 g2 key2 m2 v2 = Inr r2"
      "pc_positions r2 = map (row (pts3d_np g2)) (choice (default_rng 42) N 50000)"
      "pc_colors r2 = map (row (colors_rgb g2)) (choice (default_rng 42) N 50000)"
    using run [OF assms(2,4), of e2 key2 m2 v2] by blast
  show ?thesis using r1 r2 by (intro exI [of _ r1] exI [of _ r2]) simp
qed

text \<open>Two runs on 50001 points each, with different points and surroundings.\<close>

theorem downsampling_deterministic_witness:
  "\<exists>g1 g2.
       extract_gaussians (PDict [''pts3d'' \<mapsto> Some (full 50001 3 0)]) = Inr g1
     \<and> extract_gaussians (PDict [''pts3d'' \<mapsto> Some (full 50001 3 1)]) = Inr g2
     \<and> n_points g1 = 50001 \<and> n_points g2 = 50001
     \<and> (50000::nat) < 50001
     \<and> list_all (\<lambda>i. i < 50001)
          ((\<lambda>gen n k. [0..<k]) ((\<lambda>seed. seed) (42::nat)) (50001::nat) (50000::nat))
     \<and> (\<exists>r1 r2.
            assemble_response (\<lambda>seed. seed) (\<lambda>gen n k. [0..<k])
              \<lparr>np_global_rng = 7, start_ms = 100, now_ms = 250, uuid_ply = ''p'',
               uuid_object = ''o1'', uuid_action = ''a1''\<rparr> g1 None 3 False = Inr r1
          \<and> assemble_response (\<lambda>seed. seed) (\<lambda>gen n k. [0..<k])
              \<lparr>np_global_rng = 8, start_ms = 900, now_ms = 990, uuid_ply = ''p'',
               uuid_object = ''o2'', uuid_action = ''a2''\<rparr> g2 (Some ''k'') 5 True = Inr r2
          \<and> pc_positions r1 = map (row (pts3d_np g1)) [0..<50000]
          \<and> pc_positions r2 = map (row (pts3d_np g2)) [0..<50000]
          \<and> pc_colors r1 = map (row (colors_rgb g1)) [0..<50000]
          \<and> pc_colors r2 = map (row (colors_rgb g2)) [0..<50000])"
proof -
  obtain g1 where g1: "extract_gaussians (PDict [''pts3d'' \<mapsto> Some (full 50001 3 (0::real))]) = Inr g1"
      and n1: "n_points g1 = 50001"
    using extract_positions_only [of "full 50001 3 (0::real)" 50001]
    by (auto simp: asize_def full_def)
  obtain g2 where g2: "extract_gaussians (PDict [''pts3d'' \<mapsto> Some (full 50001 3 (1::real))]) = Inr g2"
      and n2: "n_points g2 = 50001"
    using extract_positions_only [of "full 50001 3 (1::real)" 50001]
    by (auto simp: asize_def full_def)
  have lt: "(50000::nat) < 50001" by simp
  have c: "list_all (\<lambda>i. i < 50001)
          ((\<lambda>gen n k. [0..<k]) ((\<lambda>seed. seed) (42::nat)) (50001::nat) (50000::nat))"
    by (simp add: list_all_iff)
  have "\<exists>r1 r2.
            assemble_response (\<lambda>seed. seed) (\<lambda>gen n k. [0..<k])
              \<lparr>np_global_rng = 7::nat, start_ms = 100, now_ms = 250, uuid_ply = ''p'',
               uuid_object = ''o1'', uuid_action = ''a1''\<rparr> g1 None 3 False = Inr r1
          \<and> assemble_response (\<lambda>seed. seed) (\<lambda>gen n k. [0..<k])
              \<lparr>np_global_rng = 8::nat, start_ms = 900, now_ms = 990, uuid_ply = ''p'',
               uuid_object = ''o2'', uuid_action = ''a2''\<rparr> g2 (Some ''k'') 5 True = Inr r2
          \<and> pc_positions r1 = map (row (pts3d_np g1)) [0..<50000]
          \<and> pc_positions r2 = map (row (pts3d_np g2)) [0..<50000]
          \<and> pc_colors r1 = map (row (colors_rgb g1)) [0..<50000]
          \<and> pc_colors r2 = map (row (colors_rgb g2)) [0..<50000]"
    using downsampling_deterministic [where ?g1.0 = g1 and ?g2.0 = g2 and N = 50001
        and choice = "\<lambda>gen n k. [0..<k]" and default_rng = "\<lambda>seed. seed"
        and ?e1.0 = "\<lparr>np_global_rng = 7::nat, start_ms = 100, now_ms = 250, uuid_ply = ''p'',
               uuid_object = ''o1'', uuid_action = ''a1''\<rparr>"
        and ?e2.0 = "\<lparr>np_global_rng = 8::nat, start_ms = 900, now_ms = 990, uuid_ply = ''p'',
               uuid_object = ''o2'', uuid_action = ''a2''\<rparr>"
        and ?key1.0 = None and ?key2.0 = "Some ''k''" and ?m1.0 = 3 and ?m2.0 = 5
        and ?v1.0 = False and ?v2.0 = True, OF g1 g2 n1 n2 lt]
      c by auto
  then show ?thesis using g1 g2 n1 n2 lt c by (intro exI [of _ g1] exI [of _ g2]) blast
qed

text \<open>
  C10. In every response built from an extracted reconstruction, the positions and the
  colours of the point cloud have the same length, and there is one list of point
  indices (all of them in order, or the sampled ones when there are more than 50000
  points) such that entry \<open>j\<close> of the positions is the position of the point with the
  \<open>j\<close>-th index and entry \<open>j\<close> of the colours is the colour derived for that same
  point.
\<close>

theorem point_cloud_index_aligned:
  assumes "extract_gaussians p = Inr g"
      and "assemble_response default_rng choice e g key m v = Inr r"
  shows "length (pc_positions r) = length (pc_colors r)
       \<and> (\<exists>idx. list_all (\<lambda>i. i < n_points g) idx
              \<and> pc_positions r = map (row (pts3d_np g)) idx
              \<and> pc_colors r = map (row (colors_rgb g)) idx
              \<and> idx = (if 50000 < n_points g then choice (default_rng 42) (n_points g) 50000
                        else [0..<n_points g]))"
proof -
  have sh: "nrows (pts3d_np g) = n_points g" "nrows (colors_rgb g) = n_points g"
    using extract_shapes [OF assms(1)] by (simp_all add: nrows_def)
  from assemble_Inr [OF assms(2)] show ?thesis
  proof
    assume a: "n_points g \<le> MAX_POINTS_IN_RESPONSE
            \<and> pc_positions r = tolist (pts3d_np g) \<and> pc_colors r = tolist (colors_rgb g)"
    then have "\<not> 50000 < n_points g" by (simp add: MAX_POINTS_IN_RESPONSE_def)
    then show ?thesis
      using a sh by (simp add: tolist_def list_all_iff)
  next
    assume a: "MAX_POINTS_IN_RESPONSE < n_points g
            \<and> list_all (\<lambda>i. i < nrows (pts3d_np g))
                 (choice (default_rng 42) (n_points g) MAX_POINTS_IN_RESPONSE)
            \<and> pc_positions r = map (row (pts3d_np g))
                 (choice (default_rng 42) (n_points g) MAX_POINTS_IN_RESPONSE)
            \<and> pc_colors r = map (row (colors_rgb g))
                 (choice (default_rng 42) (n_points g) MAX_POINTS_IN_RESPONSE)"
    then have "50000 < n_points g" by (simp add: MAX_POINTS_IN_RESPONSE_def)
    then show ?thesis
      using a sh by (simp add: MAX_POINTS_IN_RESPONSE_def)
  qed
qed


text \<open>Two points with three coefficients each.\<close>

theorem point_cloud_index_aligned_witness:
  "\<exists>g r.
       extract_gaussians (PDict [''pts3d'' \<mapsto> Some (NDArray [2, 3] [0, 0, 0, 1, 2, 3]),
                                 ''sh'' \<mapsto> Some (NDArray [2, 3] [0, 0, 0, 1, 1, 1])]) = Inr g
     \<and> assemble_response (\<lambda>seed. seed) (\<lambda>gen n k. [0..<k])
          \<lparr>np_global_rng = 7, start_ms = 100, now_ms = 250, uuid_ply = ''p'',
           uuid_object = ''o'', uuid_action = ''a''\<rparr> g None 2 False = Inr r
     \<and> n_points g = 2
     \<and> length (pc_positions r) = length (pc_colors r)
     \<and> pc_positions r = map (row (pts3d_np g)) [0..<2]
     \<and> pc_colors r = map (row (colors_rgb g)) [0..<2]"
proof -
  let ?p = "PDict [''pts3d'' \<mapsto> Some (NDArray [2, 3] [0, 0, 0, 1, 2, 3::real]),
                   ''sh'' \<mapsto> Some (NDArray [2, 3] [0, 0, 0, 1, 1, 1])]"
  let ?e = "\<lparr>np_global_rng = 7::nat, start_ms = 100, now_ms = 250, uuid_ply = ''p'',
             uuid_object = ''o'', uuid_action = ''a''\<rparr>"
  have h1: "extract_tensor ?p pts3d_keys = Some (NDArray [2, 3] [0, 0, 0, 1, 2, 3])"
    by (simp add: pts3d_keys_def)
  have h2: "asize (NDArray [2, 3] [0, 0, 0, 1, 2, 3::real]) = 3 * 2" by (simp add: asize_def)
  have f: "fits_auto 2 (extract_tensor ?p conf_keys)" "fits 2 3 (extract_tensor ?p scales_keys)"
    "fits 2 4 (extract_tensor ?p quats_keys)" "fits_auto 2 (extract_tensor ?p sh_keys)"
    by (simp_all add: conf_keys_def scales_keys_def quats_keys_def sh_keys_def asize_def)
  obtain g where g: "extract_gaussians ?p = Inr g" and n: "n_points g = 2"
    using extract_try_ok [OF h1 h2 f] extract_gaussians_ok by blast
  have "0 < nrows (pts3d_np g)"
    using extract_shapes [OF g] n by (simp add: nrows_def)
  moreover have "n_points g \<le> MAX_POINTS_IN_RESPONSE"
    using n by (simp add: MAX_POINTS_IN_RESPONSE_def)
  ultimately obtain r where
    r: "assemble_response (\<lambda>seed. seed) (\<lambda>gen n k. [0..<k]) ?e g None 2 False = Inr r"
    using assemble_small [of g "\<lambda>seed. seed" "\<lambda>gen n k. [0..<k]" ?e None 2 False] by blast
  show ?thesis
    using point_cloud_index_aligned [OF g r] g r n
    by (intro exI [of _ g] exI [of _ r]) simp
qed

section \<open>From the prediction to the response\<close>

text \<open>
  Steps 4 to 8 of \<^verbatim>\<open>reconstruct\<close> in sequence, for a model without a built-in
  \<^verbatim>\<open>save_ply\<close>, so that the file is written by \<^verbatim>\<open>write_gaussian_ply\<close>: the
  extraction, the encoder (any exception becomes the HTTP error 500), the copy to the
  volume (its failure only leaves the asset key empty; \<open>volume_ok\<close> says whether it
  succeeded) and the response. The result is the encoded file and the response.
\<close>

definition reconstruct_after_inference ::
  "(real \<Rightarrow> bytes) \<Rightarrow> (nat \<Rightarrow> 'g) \<Rightarrow> ('g \<Rightarrow> nat \<Rightarrow> nat \<Rightarrow> nat list) \<Rightarrow> 'g env \<Rightarrow> bool \<Rightarrow>
   real ndarray prediction \<Rightarrow> nat \<Rightarrow> bool \<Rightarrow> error + (bytes \<times> response)" where
  "reconstruct_after_inference pk default_rng choice e volume_ok predictions n_images use_video =
     ebind (extract_gaussians predictions) (\<lambda>g.
       case write_gaussian_ply pk (pts3d_np g) (opacity_np g) (scales_np g) (quats_np g) (sh_np g) of
         Inl exc \<Rightarrow> Inl (HTTPException 500)
       | Inr file \<Rightarrow>
           let ply_filename = ''gaussians_'' @ uuid_ply e @ ''.ply'';
               gaussian_asset_key = (if volume_ok then Some ply_filename else None)
           in ebind (assemble_response default_rng choice e g gaussian_asset_key n_images use_video)
                (\<lambda>r. Inr (file, r)))"

text \<open>
  A present optional tensor is usable when it is well formed and its size suits the
  reshape applied to it; where the width is inferred (confidence, SH coefficients) it
  must also be non-empty, or the encoder finds no column to read. An absent field is
  always usable.
\<close>

fun usable_auto :: "nat \<Rightarrow> 'a ndarray option \<Rightarrow> bool" where
  "usable_auto N None = True"
| "usable_auto N (Some a) = (wf_ndarray a \<and> 0 < asize a \<and> asize a mod N = 0)"

fun usable :: "nat \<Rightarrow> nat \<Rightarrow> 'a ndarray option \<Rightarrow> bool" where
  "usable N k None = True"
| "usable N k (Some a) = (wf_ndarray a \<and> asize a = N * k)"

lemma usable_auto_fits: "0 < N \<Longrightarrow> usable_auto N v \<Longrightarrow> fits_auto N v"
  by (cases v) simp_all

lemma usable_fits: "usable N k v \<Longrightarrow> fits N k v"
  by (cases v) simp_all

lemma asize_take_cols: "asize (take_cols m (NDArray [n, w] xs)) = n * min m w"
  by (simp add: asize_def take_cols_def from_rows_def nrows_def ncols_def)

lemma length_tile_rows: "length (data (tile_rows r n)) = n * length r"
  unfolding tile_rows_def from_rows_def by (simp add: length_concat_rows)

lemma inferred_width_positive:
  assumes "0 < N" "0 < a" "a mod N = 0"
  shows "1 \<le> a div N \<and> N * (a div N) = (a::nat)"
proof -
  have "N dvd a" using assms(3) by auto
  then have "N \<le> a" using assms(2) by (simp add: dvd_imp_le)
  then have "0 < a div N" using assms(1) by (simp add: div_greater_zero_iff)
  then show ?thesis using \<open>N dvd a\<close> by simp
qed

lemma encoder_succeeds:
  assumes means: "shape means = [n, 3]" "length (data means) = n * 3"
      and scales: "shape scales = [n, 3]" "length (data scales) = n * 3"
      and quats: "shape quats = [n, 4]" "length (data quats) = n * 4"
      and ops: "asize opacities = n"
      and sh: "shape sh = [n, w]" "length (data sh) = n * w"
      and w: "0 < w" and n: "0 < n"
  shows "\<exists>ply. write_gaussian_ply pk means opacities scales quats sh = Inr ply"
proof (cases "w mod 3 = 0")
  case True
  then obtain K where K: "w = 3 * K" by auto
  then have K0: "0 < K" using w by simp
  have prep: "prepare_sh n sh = Inr (sh, K)"
    using sh(1) K by (simp add: prepare_sh_divisible)
  show ?thesis
    using encoder_core [OF means scales quats ops prep] sh K K0 n by simp
next
  case False
  have prep: "prepare_sh n sh = Inr (tile3 sh, w)"
    using sh(1) False n by (simp add: prepare_sh_tiled)
  show ?thesis
    using encoder_core [OF means scales quats ops prep tile3_shape [OF sh(1)]
        tile3_length [OF sh] w n] by simp
qed

lemma pipeline_succeeds:
  assumes "extract_tensor p pts3d_keys = Some t" and "wf_ndarray t" and "asize t = 3 * N"
      and "1 \<le> N"
      and "usable_auto N (extract_tensor p conf_keys)"
      and "usable N 3 (extract_tensor p scales_keys)"
      and "usable N 4 (extract_tensor p quats_keys)"
      and "usable_auto N (extract_tensor p sh_keys)"
      and "MAX_POINTS_IN_RESPONSE < N \<longrightarrow>
             list_all (\<lambda>i. i < N) (choice (default_rng 42) N MAX_POINTS_IN_RESPONSE)"
  shows "\<exists>g ply r. extract_gaussians p = Inr g
           \<and> write_gaussian_ply pk (pts3d_np g) (opacity_np g) (scales_np g) (quats_np g)
                (sh_np g) = Inr ply
           \<and> reconstruct_after_inference pk default_rng choice e volume_ok p m v = Inr (ply, r)
           \<and> point_count r = N"
proof -
  have N: "0 < N" using assms(4) by simp
  have fit: "fits_auto N (extract_tensor p conf_keys)" "fits N 3 (extract_tensor p scales_keys)"
    "fits N 4 (extract_tensor p quats_keys)" "fits_auto N (extract_tensor p sh_keys)"
    using assms(5-8) N by (simp_all add: usable_auto_fits usable_fits)
  obtain g where g: "extract_try p = Inr g"
      and pts: "pts3d_np g = NDArray [N, 3] (data t)"
      and n: "n_points g = N"
      and op: "opacity_np g = (case extract_tensor p conf_keys of
                                None \<Rightarrow> full N 1 0.8
                              | Some c \<Rightarrow> take_cols 1 (NDArray [N, asize c div N] (data c)))"
      and sc: "scales_np g = (case extract_tensor p scales_keys of
                                None \<Rightarrow> full N 3 (- 5)
                              | Some s \<Rightarrow> NDArray [N, 3] (data s))"
      and qu: "quats_np g = (case extract_tensor p quats_keys of
                                None \<Rightarrow> tile_rows [1, 0, 0, 0] N
                              | Some q \<Rightarrow> NDArray [N, 4] (data q))"
      and sh: "sh_np g = (case extract_tensor p sh_keys of
                                None \<Rightarrow> full N 3 0
                              | Some s \<Rightarrow> NDArray [N, asize s div N] (data s))"
    using extract_try_ok [OF assms(1,3) fit] by blast
  have eg: "extract_gaussians p = Inr g" using g by (rule extract_gaussians_ok)
  have m1: "shape (pts3d_np g) = [N, 3]" "length (data (pts3d_np g)) = N * 3"
    using pts assms(2,3) by (simp_all add: wf_ndarray_def)
  have s1: "shape (scales_np g) = [N, 3] \<and> length (data (scales_np g)) = N * 3"
    using sc assms(6)
    by (cases "extract_tensor p scales_keys") (simp_all add: full_def wf_ndarray_def)
  have q1: "shape (quats_np g) = [N, 4] \<and> length (data (quats_np g)) = N * 4"
  proof (cases "extract_tensor p quats_keys")
    case None
    then show ?thesis
      using qu length_tile_rows [of "[1, 0, 0, 0::real]" N]
      by (simp add: tile_rows_def from_rows_def)
  next
    case (Some q)
    then show ?thesis using qu assms(7) by (simp add: wf_ndarray_def)
  qed
  have o1: "asize (opacity_np g) = N"
  proof (cases "extract_tensor p conf_keys")
    case None
    then show ?thesis using op by (simp add: full_def asize_def)
  next
    case (Some c)
    then have c: "0 < asize c" "asize c mod N = 0" using assms(5) by simp_all
    have "1 \<le> asize c div N" using inferred_width_positive [OF N c] by (rule conjunct1)
    then show ?thesis using op Some by (simp add: asize_take_cols min_absorb1)
  qed
  obtain w where h1: "shape (sh_np g) = [N, w]" "length (data (sh_np g)) = N * w" "0 < w"
  proof (cases "extract_tensor p sh_keys")
    case None
    then have "shape (sh_np g) = [N, 3]" "length (data (sh_np g)) = N * 3"
      using sh by (simp_all add: full_def)
    then show ?thesis using that [of 3] by simp
  next
    case (Some s)
    then have a: "0 < asize s" "asize s mod N = 0" "wf_ndarray s" using assms(8) by simp_all
    have "1 \<le> asize s div N \<and> N * (asize s div N) = asize s"
      using inferred_width_positive [OF N a(1,2)] .
    then show ?thesis
      using that [of "asize s div N"] sh Some a(3) by (simp add: wf_ndarray_def)
  qed
  obtain ply where f: "write_gaussian_ply pk (pts3d_np g) (opacity_np g) (scales_np g)
                          (quats_np g) (sh_np g) = Inr ply"
    using encoder_succeeds [OF m1 conjunct1 [OF s1] conjunct2 [OF s1] conjunct1 [OF q1]
        conjunct2 [OF q1] o1 h1 N] by blast
  have sh2: "nrows (pts3d_np g) = N" "nrows (colors_rgb g) = N"
    using extract_shapes [OF eg] n by (simp_all add: nrows_def)
  have pos: "0 < nrows (pts3d_np g)" using sh2 N by simp
  have "\<exists>r. assemble_response default_rng choice e g key m v = Inr r \<and> point_count r = N"
    for key
  proof (cases "MAX_POINTS_IN_RESPONSE < N")
    case True
    then have big: "MAX_POINTS_IN_RESPONSE < n_points g" by (simp add: n)
    have "list_all (\<lambda>i. i < nrows (pts3d_np g))
             (choice (default_rng 42) (n_points g) MAX_POINTS_IN_RESPONSE)"
      "list_all (\<lambda>i. i < nrows (colors_rgb g))
             (choice (default_rng 42) (n_points g) MAX_POINTS_IN_RESPONSE)"
      using assms(9) True by (simp_all add: sh2 n)
    from assemble_large [where g = g and choice = choice and default_rng = default_rng
        and e = e and key = key and m = m and v = v, OF pos big this]
    show ?thesis by (auto simp: n)
  next
    case False
    then have small: "n_points g \<le> MAX_POINTS_IN_RESPONSE" by (simp add: n)
    from assemble_small [OF pos small, of default_rng choice e key m v]
    show ?thesis by (auto simp: n)
  qed
  then obtain r where
    "assemble_response default_rng choice e g
       (if volume_ok then Some (''gaussians_'' @ uuid_ply e @ ''.ply'') else None) m v = Inr r"
    "point_count r = N" by blast
  then have "reconstruct_after_inference pk default_rng choice e volume_ok p m v = Inr (ply, r)
             \<and> point_count r = N"
    using eg f by (cases volume_ok) (auto simp: reconstruct_after_inference_def Let_def)
  then show ?thesis
    by (intro exI [of _ g] exI [of _ ply] exI [of _ r] conjI eg f) simp_all
qed

text \<open>
  C7. For every prediction result whose positions resolve to a well-formed tensor of
  \<open>3 * N\<close> numbers with \<open>N \<ge> 1\<close>, whatever optional fields are missing (those
  present being usable, and the generator returning indices below \<open>N\<close> when it is
  asked to sample), the request succeeds: the extraction, the encoder and the response
  assembler all return, and the response reports \<open>N\<close> points. Every missing field is
  the documented default at every point (opacity \<open>0.8\<close>, scale \<open>-5\<close> on each axis,
  rotation \<open>(1, 0, 0, 0)\<close>, colour coefficients the zero vector of length 3), and all six
  per-point arrays have \<open>N\<close> rows.
\<close>

theorem missing_fields_take_defaults:
  assumes "extract_tensor p pts3d_keys = Some t" and "wf_ndarray t" and "asize t = 3 * N"
      and "1 \<le> N"
      and "usable_auto N (extract_tensor p conf_keys)"
      and "usable N 3 (extract_tensor p scales_keys)"
      and "usable N 4 (extract_tensor p quats_keys)"
      and "usable_auto N (extract_tensor p sh_keys)"
      and "50000 < N \<longrightarrow> list_all (\<lambda>i. i < N) (choice (default_rng 42) N 50000)"
  shows "\<exists>g ply r.
             extract_gaussians p = Inr g
           \<and> write_gaussian_ply pk (pts3d_np g) (opacity_np g) (scales_np g) (quats_np g)
                (sh_np g) = Inr ply
           \<and> reconstruct_after_inference pk default_rng choice e volume_ok p m v = Inr (ply, r)
           \<and> point_count r = N
           \<and> n_points g = N
           \<and> list_all (\<lambda>a. nrows a = N)
                [pts3d_np g, opacity_np g, scales_np g, quats_np g, sh_np g, colors_rgb g]
           \<and> (extract_tensor p conf_keys = None \<longrightarrow>
                 opacity_np g = NDArray [N, 1] (replicate N 0.8)
               \<and> (\<forall>i<N. row (opacity_np g) i = [0.8]))
           \<and> (extract_tensor p scales_keys = None \<longrightarrow>
                 scales_np g = NDArray [N, 3] (replicate (N * 3) (- 5))
               \<and> (\<forall>i<N. row (scales_np g) i = [- 5, - 5, - 5]))
           \<and> (extract_tensor p quats_keys = None \<longrightarrow>
                 quats_np g = NDArray [N, 4] (concat (replicate N [1, 0, 0, 0]))
               \<and> (\<forall>i<N. row (quats_np g) i = [1, 0, 0, 0]))
           \<and> (extract_tensor p sh_keys = None \<longrightarrow>
                 sh_np g = NDArray [N, 3] (replicate (N * 3) 0)
               \<and> (\<forall>i<N. row (sh_np g) i = [0, 0, 0]))"
proof -
  have N: "0 < N" using assms(4) by simp
  have fit: "fits_auto N (extract_tensor p conf_keys)" "fits N 3 (extract_tensor p scales_keys)"
    "fits N 4 (extract_tensor p quats_keys)" "fits_auto N (extract_tensor p sh_keys)"
    using assms(5-8) N by (simp_all add: usable_auto_fits usable_fits)
  have ch: "MAX_POINTS_IN_RESPONSE < N \<longrightarrow>
             list_all (\<lambda>i. i < N) (choice (default_rng 42) N MAX_POINTS_IN_RESPONSE)"
    using assms(9) by (simp add: MAX_POINTS_IN_RESPONSE_def)
  from pipeline_succeeds [where pk = pk and e = e and volume_ok = volume_ok and m = m
        and v = v and choice = choice and default_rng = default_rng,
        OF assms(1-8) ch]
  obtain g ply r where run: "extract_gaussians p = Inr g
           \<and> write_gaussian_ply pk (pts3d_np g) (opacity_np g) (scales_np g) (quats_np g)
                (sh_np g) = Inr ply
           \<and> reconstruct_after_inference pk default_rng choice e volume_ok p m v = Inr (ply, r)
           \<and> point_count r = N"
    by (elim exE)
  from extraction_defaults [OF assms(1,3) fit]
  obtain g' where d: "extract_gaussians p = Inr g'
           \<and> n_points g' = N
           \<and> list_all (\<lambda>a. nrows a = N)
                [pts3d_np g', opacity_np g', scales_np g', quats_np g', sh_np g', colors_rgb g']
           \<and> (extract_tensor p conf_keys = None \<longrightarrow>
                 opacity_np g' = NDArray [N, 1] (replicate N 0.8)
               \<and> (\<forall>i<N. row (opacity_np g') i = [0.8]))
           \<and> (extract_tensor p scales_keys = None \<longrightarrow>
                 scales_np g' = NDArray [N, 3] (replicate (N * 3) (- 5))
               \<and> (\<forall>i<N. row (scales_np g') i = [- 5, - 5, - 5]))
           \<and> (extract_tensor p quats_keys = None \<longrightarrow>
                 quats_np g' = NDArray [N, 4] (concat (replicate N [1, 0, 0, 0]))
               \<and> (\<forall>i<N. row (quats_np g') i = [1, 0, 0, 0]))
           \<and> (extract_tensor p sh_keys = None \<longrightarrow>
                 sh_np g' = NDArray [N, 3] (replicate (N * 3) 0)
               \<and> (\<forall>i<N. row (sh_np g') i = [0, 0, 0]))"
    by (elim exE)
  have same: "g' = g" using conjunct1 [OF run] conjunct1 [OF d] by simp
  note rest = conjunct2 [OF d, unfolded same]
  note r1 = conjunct1 [OF run]
  note r2 = conjunct1 [OF conjunct2 [OF run]]
  note r3 = conjunct1 [OF conjunct2 [OF conjunct2 [OF run]]]
  note r4 = conjunct2 [OF conjunct2 [OF conjunct2 [OF run]]]
  show ?thesis
    by (rule exI [of _ g], rule exI [of _ ply], rule exI [of _ r])
       (rule conjI [OF r1 conjI [OF r2 conjI [OF r3 conjI [OF r4 rest]]]])
qed

text \<open>
  The scenario of ten points with every optional field missing: the request succeeds
  and every point has opacity \<open>0.8\<close> and the identity rotation.
\<close>

theorem missing_fields_take_defaults_witness:
  "extract_tensor (PDict [''pts3d'' \<mapsto> Some (NDArray [10, 3] (replicate 30 (2::real)))]) pts3d_keys
     = Some (NDArray [10, 3] (replicate 30 2))
   \<and> wf_ndarray (NDArray [10, 3] (replicate 30 (2::real)))
   \<and> asize (NDArray [10, 3] (replicate 30 (2::real))) = 3 * 10
   \<and> (1::nat) \<le> 10
   \<and> extract_tensor (PDict [''pts3d'' \<mapsto> Some (NDArray [10, 3] (replicate 30 (2::real)))]) conf_keys = None
   \<and> extract_tensor (PDict [''pts3d'' \<mapsto> Some (NDArray [10, 3] (replicate 30 (2::real)))]) scales_keys = None
   \<and> extract_tensor (PDict [''pts3d'' \<mapsto> Some (NDArray [10, 3] (replicate 30 (2::real)))]) quats_keys = None
   \<and> extract_tensor (PDict [''pts3d'' \<mapsto> Some (NDArray [10, 3] (replicate 30 (2::real)))]) sh_keys = None
   \<and> (\<exists>g ply r.
          extract_gaussians (PDict [''pts3d'' \<mapsto> Some (NDArray [10, 3] (replicate 30 (2::real)))]) = Inr g
        \<and> reconstruct_after_inference (\<lambda>x. ''0000'') (\<lambda>seed. seed) (\<lambda>gen n k. [0..<k])
            \<lparr>np_global_rng = 7, start_ms = 100, now_ms = 250, uuid_ply = ''p'',
             uuid_object = ''o'', uuid_action = ''a''\<rparr> True
            (PDict [''pts3d'' \<mapsto> Some (NDArray [10, 3] (replicate 30 (2::real)))]) 3 False
            = Inr (ply, r)
        \<and> point_count r = 10
        \<and> n_points g = 10
        \<and> opacity_np g = NDArray [10, 1] (replicate 10 0.8)
        \<and> scales_np g = NDArray [10, 3] (replicate (10 * 3) (- 5))
        \<and> quats_np g = NDArray [10, 4] (concat (replicate 10 [1, 0, 0, 0]))
        \<and> sh_np g = NDArray [10, 3] (replicate (10 * 3) 0)
        \<and> (\<forall>i<10. row (opacity_np g) i = [0.8])
        \<and> (\<forall>i<10. row (quats_np g) i = [1, 0, 0, 0]))"
proof -
  let ?p = "PDict [''pts3d'' \<mapsto> Some (NDArray [10, 3] (replicate 30 (2::real)))]"
  let ?e = "\<lparr>np_global_rng = 7::nat, start_ms = 100, now_ms = 250, uuid_ply = ''p'',
             uuid_object = ''o'', uuid_action = ''a''\<rparr>"
  have h1: "extract_tensor ?p pts3d_keys = Some (NDArray [10, 3] (replicate 30 2))"
    by (simp add: pts3d_keys_def)
  have h2: "wf_ndarray (NDArray [10, 3] (replicate 30 (2::real)))"
    by (simp add: wf_ndarray_def asize_def)
  have h3: "asize (NDArray [10, 3] (replicate 30 (2::real))) = 3 * 10"
    by (simp add: asize_def)
  have h4: "(1::nat) \<le> 10" by simp
  have n1: "extract_tensor ?p conf_keys = None" by (simp add: conf_keys_def)
  have n2: "extract_tensor ?p scales_keys = None" by (simp add: scales_keys_def)
  have n3: "extract_tensor ?p quats_keys = None" by (simp add: quats_keys_def)
  have n4: "extract_tensor ?p sh_keys = None" by (simp add: sh_keys_def)
  have u: "usable_auto 10 (extract_tensor ?p conf_keys)" "usable 10 3 (extract_tensor ?p scales_keys)"
    "usable 10 4 (extract_tensor ?p quats_keys)" "usable_auto 10 (extract_tensor ?p sh_keys)"
    unfolding n1 n2 n3 n4 by simp_all
  have c: "50000 < (10::nat) \<longrightarrow>
             list_all (\<lambda>i. i < 10) ((\<lambda>gen n k. [0..<k]) ((\<lambda>seed. seed) (42::nat)) (10::nat) (50000::nat))"
    by simp
  from missing_fields_take_defaults [where pk = "\<lambda>x. ''0000''" and default_rng = "\<lambda>seed. seed"
      and choice = "\<lambda>gen n k. [0..<k]" and e = ?e and volume_ok = True and m = 3 and v = False,
      OF h1 h2 h3 h4 u c]
  obtain g ply r where w:
      "extract_gaussians ?p = Inr g
       \<and> write_gaussian_ply (\<lambda>x. ''0000'') (pts3d_np g) (opacity_np g) (scales_np g) (quats_np g)
            (sh_np g) = Inr ply
       \<and> reconstruct_after_inference (\<lambda>x. ''0000'') (\<lambda>seed. seed) (\<lambda>gen n k. [0..<k])
            ?e True ?p 3 False = Inr (ply, r)
       \<and> point_count r = 10
       \<and> n_points g = 10
       \<and> list_all (\<lambda>a. nrows a = 10)
            [pts3d_np g, opacity_np g, scales_np g, quats_np g, sh_np g, colors_rgb g]
       \<and> (extract_tensor ?p conf_keys = None \<longrightarrow>
             opacity_np g = NDArray [10, 1] (replicate 10 0.8)
           \<and> (\<forall>i<10. row (opacity_np g) i = [0.8]))
       \<and> (extract_tensor ?p scales_keys = None \<longrightarrow>
             scales_np g = NDArray [10, 3] (replicate (10 * 3) (- 5))
           \<and> (\<forall>i<10. row (scales_np g) i = [- 5, - 5, - 5]))
       \<and> (extract_tensor ?p quats_keys = None \<longrightarrow>
             quats_np g = NDArray [10, 4] (concat (replicate 10 [1, 0, 0, 0]))
           \<and> (\<forall>i<10. row (quats_np g) i = [1, 0, 0, 0]))
       \<and> (extract_tensor ?p sh_keys = None \<longrightarrow>
             sh_np g = NDArray [10, 3] (replicate (10 * 3) 0)
           \<and> (\<forall>i<10. row (sh_np g) i = [0, 0, 0]))"
    by (elim exE)
  note a1 = conjunct1 [OF w]
  note t1 = conjunct2 [OF conjunct2 [OF w]]
  note a3 = conjunct1 [OF t1]
  note a4 = conjunct1 [OF conjunct2 [OF t1]]
  note a5 = conjunct1 [OF conjunct2 [OF conjunct2 [OF t1]]]
  note t2 = conjunct2 [OF conjunct2 [OF conjunct2 [OF conjunct2 [OF t1]]]]
  note d1 = mp [OF conjunct1 [OF t2] n1]
  note d2 = mp [OF conjunct1 [OF conjunct2 [OF t2]] n2]
  note d3 = mp [OF conjunct1 [OF conjunct2 [OF conjunct2 [OF t2]]] n3]
  note d4 = mp [OF conjunct2 [OF conjunct2 [OF conjunct2 [OF t2]]] n4]
  have "\<exists>g ply r.
          extract_gaussians ?p = Inr g
        \<and> reconstruct_after_inference (\<lambda>x. ''0000'') (\<lambda>seed. seed) (\<lambda>gen n k. [0..<k])
            ?e True ?p 3 False = Inr (ply, r)
        \<and> point_count r = 10
        \<and> n_points g = 10
        \<and> opacity_np g = NDArray [10, 1] (replicate 10 0.8)
        \<and> scales_np g = NDArray [10, 3] (replicate (10 * 3) (- 5))
        \<and> quats_np g = NDArray [10, 4] (concat (replicate 10 [1, 0, 0, 0]))
        \<and> sh_np g = NDArray [10, 3] (replicate (10 * 3) 0)
        \<and> (\<forall>i<10. row (opacity_np g) i = [0.8])
        \<and> (\<forall>i<10. row (quats_np g) i = [1, 0, 0, 0])"
    by (rule exI [of _ g], rule exI [of _ ply], rule exI [of _ r])
       (rule conjI [OF a1 conjI [OF a3 conjI [OF a4 conjI [OF a5
          conjI [OF conjunct1 [OF d1] conjI [OF conjunct1 [OF d2] conjI [OF conjunct1 [OF d3]
          conjI [OF conjunct1 [OF d4] conjI [OF conjunct2 [OF d1] conjunct2 [OF d3]]]]]]]]]])
  then show ?thesis
    by (rule conjI [OF h1 conjI [OF h2 conjI [OF h3 conjI [OF h4 conjI [OF n1 conjI [OF n2
          conjI [OF n3 conjI [OF n4]]]]]]]])
qed

end
